theory Spec2Isabelle
  imports Main "HOL-Library.AList"
begin

section \<open>Data model of the task manager\<close>

text \<open>
  Values exchanged as JSON with the workers, as Python sees them after
  \<^verbatim>\<open>response.json()\<close>: \<open>JNull\<close> is \<^verbatim>\<open>None\<close>, a \<open>JDict\<close> is a
  dict in insertion order.
\<close>

datatype json =
    JNull
  | JBool bool
  | JInt int
  | JStr string
  | JList "json list"
  | JDict "(string \<times> json) list"

text \<open>
  The status strings the code writes and compares: \<^verbatim>\<open>"not_started"\<close>,
  \<^verbatim>\<open>"assigned"\<close>, \<^verbatim>\<open>"in_progress"\<close>, \<^verbatim>\<open>"completed"\<close>,
  \<^verbatim>\<open>"failed"\<close>.
\<close>

datatype status = NotStarted | Assigned | InProgress | Completed | Failed

text \<open>
  A task dict as \<^verbatim>\<open>parse_tasks_markdown\<close> builds it. The \<^verbatim>\<open>"status"\<close>
  key of the task dict is written once at creation; the status that the
  dispatcher reads and writes is the one in \<^verbatim>\<open>self.task_status\<close>.
\<close>

record task =
  task_id :: string
  title :: string
  description :: string
  agent :: string
  priority :: int
  dependencies :: "string list"
  status :: status
  result :: json

text \<open>
  An entry of \<^verbatim>\<open>self.task_status\<close>; \<^verbatim>\<open>start_time\<close> and
  \<^verbatim>\<open>completion_time\<close> are always \<^verbatim>\<open>None\<close> and never read.
\<close>

record track =
  st_status :: status
  assigned_agent :: string

text \<open>
  The mutable part of a \<^verbatim>\<open>TaskManager\<close>: the task list (task objects are
  referred to by their position in it) and the status map keyed by task id.
  \<open>calls\<close> is a history variable: the positions of the task objects on which
  \<^verbatim>\<open>send_task_to_agent\<close> has been entered, oldest first. No operation reads it.
\<close>

record manager =
  tasks :: "task list"
  task_status :: "string \<rightharpoonup> track"
  calls :: "nat list"

text \<open>A task dict with the defaults of the parser for the fields not given.\<close>

definition mk_task :: "string \<Rightarrow> string \<Rightarrow> int \<Rightarrow> string list \<Rightarrow> task" where
  "mk_task i t p deps =
     \<lparr>task_id = i, title = t, description = [], agent = ''developer'', priority = p,
      dependencies = deps, status = NotStarted, result = JNull\<rparr>"

section \<open>Eligibility\<close>

text \<open>
  \<^verbatim>\<open>self.task_status.get(id, {}).get("status")\<close>: \<open>None\<close> for an id that
  is not tracked.
\<close>

definition status_entry :: "manager \<Rightarrow> string \<Rightarrow> status option" where
  "status_entry m i = map_option st_status (task_status m i)"

text \<open>
  \<^verbatim>\<open>self.task_status.get(id, {}).get("status", "not_started")\<close>
\<close>

definition tracked_status :: "manager \<Rightarrow> string \<Rightarrow> status" where
  "tracked_status m i = (case status_entry m i of None \<Rightarrow> NotStarted | Some s \<Rightarrow> s)"

text \<open>
  The loop of \<^verbatim>\<open>can_assign_task\<close> over \<^verbatim>\<open>task["dependencies"]\<close>;
  \<open>find\<close> is \<^verbatim>\<open>next((t for t in self.tasks if t["title"] == dep), None)\<close>.
\<close>

fun can_assign_deps :: "manager \<Rightarrow> string list \<Rightarrow> bool" where
  "can_assign_deps m [] = True"
| "can_assign_deps m (dep # deps) =
     (case find (\<lambda>t. title t = dep) (tasks m) of
        None \<Rightarrow> can_assign_deps m deps
      | Some dep_task \<Rightarrow>
          if tracked_status m (task_id dep_task) \<noteq> Completed then False
          else can_assign_deps m deps)"

definition can_assign_task :: "manager \<Rightarrow> task \<Rightarrow> bool" where
  "can_assign_task m t = can_assign_deps m (dependencies t)"

section \<open>Dependency scheduler\<close>

text \<open>
  A Python dict is an association list with distinct keys in insertion order:
  \<open>map_of d k\<close> reads \<^verbatim>\<open>d[k]\<close>, where \<open>None\<close> stands for the
  \<^verbatim>\<open>KeyError\<close>, and \<open>AList.update k v d\<close> is \<^verbatim>\<open>d[k] = v\<close>. A function
  returning \<open>None\<close> models a call that raises.
\<close>

type_synonym 'v dict = "(string \<times> 'v) list"

text \<open>
  \<^verbatim>\<open>task_map = {task["title"]: task for task in self.tasks}\<close>; a task object
  is represented by its position in \<^verbatim>\<open>self.tasks\<close>.
\<close>

definition build_task_map :: "task list \<Rightarrow> nat dict" where
  "build_task_map ts = fold (\<lambda>(i, t) d. AList.update (title t) i d) (List.enumerate 0 ts) []"

text \<open>The first loop: \<^verbatim>\<open>in_degree[task_title] = 0; graph[task_title] = []\<close>.\<close>

definition init_graph :: "task list \<Rightarrow> string list dict \<times> int dict" where
  "init_graph ts =
     fold (\<lambda>t (graph, in_degree). (AList.update (title t) [] graph, AList.update (title t) 0 in_degree))
       ts ([], [])"

text \<open>
  The inner loop over \<^verbatim>\<open>task["dependencies"]\<close>:
  \<^verbatim>\<open>if dep in task_map: graph[dep].append(task_title); in_degree[task_title] += 1\<close>.
\<close>

fun add_edges ::
  "nat dict \<Rightarrow> string \<Rightarrow> string list \<Rightarrow> string list dict \<times> int dict
     \<Rightarrow> (string list dict \<times> int dict) option" where
  "add_edges task_map task_title [] gd = Some gd"
| "add_edges task_map task_title (dep # deps) (graph, in_degree) =
     (if map_of task_map dep \<noteq> None then
        (case map_of graph dep of
           None \<Rightarrow> None
         | Some ns \<Rightarrow>
             (case map_of in_degree task_title of
                None \<Rightarrow> None
              | Some n \<Rightarrow>
                  add_edges task_map task_title deps
                    (AList.update dep (ns @ [task_title]) graph,
                     AList.update task_title (n + 1) in_degree)))
      else add_edges task_map task_title deps (graph, in_degree))"

text \<open>The second loop over \<^verbatim>\<open>self.tasks\<close>.\<close>

fun build_graph ::
  "nat dict \<Rightarrow> task list \<Rightarrow> string list dict \<times> int dict
     \<Rightarrow> (string list dict \<times> int dict) option" where
  "build_graph task_map [] gd = Some gd"
| "build_graph task_map (t # ts) gd =
     (case add_edges task_map (title t) (dependencies t) gd of
        None \<Rightarrow> None
      | Some gd' \<Rightarrow> build_graph task_map ts gd')"

text \<open>
  \<^verbatim>\<open>queue.sort(key=lambda x: task_map[x]["priority"])\<close>: the keys are computed
  for every element first (a missing title raises), then the list is sorted
  stably on them.
\<close>

definition sort_queue :: "nat dict \<Rightarrow> task list \<Rightarrow> string list \<Rightarrow> string list option" where
  "sort_queue task_map ts queue =
     (case those (map (\<lambda>x. map_option (\<lambda>i. priority (ts ! i)) (map_of task_map x)) queue) of
        None \<Rightarrow> None
      | Some keys \<Rightarrow> Some (map snd (sort_key fst (zip keys queue))))"

text \<open>
  \<^verbatim>\<open>for neighbor in graph[current]: in_degree[neighbor] -= 1;
  if in_degree[neighbor] == 0: queue.append(neighbor)\<close>
\<close>

fun relax :: "string list \<Rightarrow> int dict \<times> string list \<Rightarrow> (int dict \<times> string list) option" where
  "relax [] dq = Some dq"
| "relax (neighbor # ns) (in_degree, queue) =
     (case map_of in_degree neighbor of
        None \<Rightarrow> None
      | Some n \<Rightarrow>
          relax ns (AList.update neighbor (n - 1) in_degree,
                    if n - 1 = 0 then queue @ [neighbor] else queue))"

text \<open>The number of titles whose in-degree is still positive.\<close>

definition positive :: "int dict \<Rightarrow> nat" where
  "positive in_degree = length (filter (\<lambda>(k, v). 0 < v) in_degree)"

text \<open>
  The \<^verbatim>\<open>while queue:\<close> loop. \<^verbatim>\<open>queue.pop(0)\<close> on an empty list would
  raise \<^verbatim>\<open>IndexError\<close>.
\<close>

function kahn_loop ::
  "nat dict \<Rightarrow> string list dict \<Rightarrow> task list \<Rightarrow> int dict \<Rightarrow> string list \<Rightarrow> nat list
     \<Rightarrow> nat list option" where
  "kahn_loop task_map graph ts in_degree queue sorted_tasks =
     (if queue = [] then Some sorted_tasks
      else
        (case sort_queue task_map ts queue of
           None \<Rightarrow> None
         | Some [] \<Rightarrow> None
         | Some (current # queue') \<Rightarrow>
             (case map_of task_map current of
                None \<Rightarrow> None
              | Some i \<Rightarrow>
                  (case map_of graph current of
                     None \<Rightarrow> None
                   | Some ns \<Rightarrow>
                       (case relax ns (in_degree, queue') of
                          None \<Rightarrow> None
                        | Some (in_degree', queue'') \<Rightarrow>
                            kahn_loop task_map graph ts in_degree' queue''
                              (sorted_tasks @ [i]))))))"
  by pat_completeness auto

lemma positive_update:
  "map_of d k = Some n \<Longrightarrow>
     positive (AList.update k (n - 1) d) = (if n = 1 then positive d - 1 else positive d)
     \<and> (n = 1 \<longrightarrow> 0 < positive d)"
  by (induction d) (auto simp: positive_def split: if_splits)

lemma relax_measure:
  "relax ns (d, q) = Some (d', q') \<Longrightarrow> length q' + positive d' \<le> length q + positive d"
proof (induction ns arbitrary: d q)
  case Nil
  then show ?case by simp
next
  case (Cons n ns)
  from Cons.prems obtain v where v: "map_of d n = Some v"
    by (auto split: option.splits)
  with Cons.prems have
    "relax ns (AList.update n (v - 1) d, if v - 1 = 0 then q @ [n] else q) = Some (d', q')"
    by simp
  from Cons.IH [OF this] positive_update [OF v] show ?case
    by (auto split: if_splits)
qed

lemma those_length: "those xs = Some ys \<Longrightarrow> length ys = length xs"
  by (induction xs arbitrary: ys) (auto split: option.splits)

lemma sort_queue_length: "sort_queue task_map ts q = Some q' \<Longrightarrow> length q' = length q"
  by (auto simp: sort_queue_def split: option.splits dest: those_length)

termination kahn_loop
proof (relation "measure (\<lambda>(task_map, graph, ts, in_degree, queue, sorted_tasks).
                   length queue + positive in_degree)")
  show "wf (measure (\<lambda>(task_map, graph, ts, in_degree, queue, sorted_tasks).
                   length queue + positive in_degree))"
    by simp
next
  fix task_map :: "nat dict" and graph :: "string list dict" and ts :: "task list"
    and in_degree :: "int dict" and queue :: "string list" and sorted_tasks :: "nat list"
    and sq current queue' i ns dq in_degree' queue''
  assume "queue \<noteq> []"
    and sq: "sort_queue task_map ts queue = Some sq" "sq = current # queue'"
    and "map_of task_map current = Some i" "map_of graph current = Some ns"
    and rl: "relax ns (in_degree, queue') = Some dq" "(in_degree', queue'') = dq"
  from sq have "length queue = Suc (length queue')"
    using sort_queue_length by fastforce
  moreover from rl have "length queue'' + positive in_degree' \<le> length queue' + positive in_degree"
    using relax_measure by metis
  ultimately show
    "((task_map, graph, ts, in_degree', queue'', sorted_tasks @ [i]),
      (task_map, graph, ts, in_degree, queue, sorted_tasks))
     \<in> measure (\<lambda>(task_map, graph, ts, in_degree, queue, sorted_tasks).
                   length queue + positive in_degree)"
    by simp
qed

declare kahn_loop.simps [simp del]

text \<open>
  \<^verbatim>\<open>sort_tasks_by_dependencies\<close>: the returned list holds the positions in
  \<^verbatim>\<open>self.tasks\<close> of the task objects in \<^verbatim>\<open>sorted_tasks\<close>.
\<close>

definition sort_tasks_by_dependencies :: "task list \<Rightarrow> nat list option" where
  "sort_tasks_by_dependencies ts =
     (let task_map = build_task_map ts in
      case build_graph task_map ts (init_graph ts) of
        None \<Rightarrow> None
      | Some (graph, in_degree) \<Rightarrow>
          kahn_loop task_map graph ts in_degree
            (map fst (filter (\<lambda>(k, v). v = 0) in_degree)) [])"

section \<open>Dispatcher\<close>

text \<open>
  \<^verbatim>\<open>d.get(k, default)\<close> on a value received as JSON: on a dict the entry or
  the default, on anything else an \<^verbatim>\<open>AttributeError\<close> (\<open>None\<close>).
\<close>

fun py_get :: "json \<Rightarrow> string \<Rightarrow> json \<Rightarrow> json option" where
  "py_get (JDict kvs) k dflt = Some (case map_of kvs k of None \<Rightarrow> dflt | Some v \<Rightarrow> v)"
| "py_get _ k dflt = None"

text \<open>
  What one HTTP request comes to: the client raises, or a response arrives
  with a status code and a body on which \<^verbatim>\<open>response.json()\<close> either
  raises (\<open>None\<close>) or yields a value. The workers and the network are a
  state \<open>'w\<close> outside the manager; a request maps it to a reply and a new
  state.
\<close>

datatype reply = RequestError | Response int "json option"

text \<open>The \<^verbatim>\<open>task_data\<close> dict posted to the worker.\<close>

record payload =
  p_id :: string
  p_title :: string
  p_description :: string
  p_type :: string
  p_priority :: int

type_synonym 'w post = "'w \<Rightarrow> json \<Rightarrow> payload \<Rightarrow> reply \<times> 'w"

text \<open>\<^verbatim>\<open>self.composer_agent.agents\<close>: worker name to its info dict.\<close>

type_synonym registry = "string \<rightharpoonup> json dict"

text \<open>
  How a call ends: it returns, or an exception leaves it; either way the
  mutations made so far stay.
\<close>

datatype 'a outcome = Returns 'a | Raises 'a

fun state_of :: "'a outcome \<Rightarrow> 'a" where
  "state_of (Returns s) = s"
| "state_of (Raises s) = s"

text \<open>\<^verbatim>\<open>self.task_status[id]["status"] = s\<close>; \<open>None\<close> is the \<^verbatim>\<open>KeyError\<close>.\<close>

definition set_status :: "manager \<Rightarrow> string \<Rightarrow> status \<Rightarrow> manager option" where
  "set_status m i s =
     (case task_status m i of
        None \<Rightarrow> None
      | Some e \<Rightarrow> Some (m\<lparr>task_status := (task_status m)(i \<mapsto> e\<lparr>st_status := s\<rparr>)\<rparr>))"

text \<open>\<^verbatim>\<open>task["result"] = v\<close> on the task object at position \<open>i\<close>.\<close>

definition set_result :: "manager \<Rightarrow> nat \<Rightarrow> json \<Rightarrow> manager" where
  "set_result m i v = m\<lparr>tasks := (tasks m)[i := (tasks m ! i)\<lparr>result := v\<rparr>]\<rparr>"

definition mk_task_data :: "task \<Rightarrow> payload" where
  "mk_task_data t =
     \<lparr>p_id = task_id t, p_title = title t, p_description = description t,
      p_type = ''generic'', p_priority = priority t\<rparr>"

text \<open>
  The loop of \<^verbatim>\<open>check_and_assign_waiting_tasks\<close> over the positions of
  \<^verbatim>\<open>self.tasks\<close>, given the function that sends one task.
\<close>

fun cascade_loop ::
  "(string \<Rightarrow> nat \<Rightarrow> 'w \<times> manager \<Rightarrow> ('w \<times> manager) option) \<Rightarrow> nat list \<Rightarrow> 'w \<times> manager
     \<Rightarrow> ('w \<times> manager) outcome option" where
  "cascade_loop send [] s = Some (Returns s)"
| "cascade_loop send (i # is) (w, m) =
     (if status_entry m (task_id (tasks m ! i)) = Some NotStarted
         \<and> can_assign_task m (tasks m ! i)
      then
        (case send (agent (tasks m ! i)) i (w, m) of
           None \<Rightarrow> None
         | Some (w', m') \<Rightarrow>
             (case set_status m' (task_id (tasks m' ! i)) Assigned of
                None \<Rightarrow> Some (Raises (w', m'))
              | Some m'' \<Rightarrow> cascade_loop send is (w', m'')))
      else cascade_loop send is (w, m))"

definition check_and_assign_waiting_tasks ::
  "(string \<Rightarrow> nat \<Rightarrow> 'w \<times> manager \<Rightarrow> ('w \<times> manager) option) \<Rightarrow> 'w \<times> manager
     \<Rightarrow> ('w \<times> manager) outcome option" where
  "check_and_assign_waiting_tasks send s = cascade_loop send [0..<length (tasks (snd s))] s"

text \<open>
  \<^verbatim>\<open>send_task_to_agent(agent_name, task)\<close> for the task at position \<open>i\<close>.
  The whole body is inside \<^verbatim>\<open>try ... except Exception\<close>, so every raise
  ends the call normally with the state reached. The call and the cascade
  call each other; the first argument bounds the depth of that nesting, and
  \<open>None\<close> means the bound was too small.
\<close>

primrec send_task_to_agent ::
  "nat \<Rightarrow> 'w post \<Rightarrow> registry \<Rightarrow> string \<Rightarrow> nat \<Rightarrow> 'w \<times> manager \<Rightarrow> ('w \<times> manager) option" where
  "send_task_to_agent 0 post agents agent_name i s = None"
| "send_task_to_agent (Suc fuel) post agents agent_name i s =
     (let w = fst s; m = (snd s)\<lparr>calls := calls (snd s) @ [i]\<rparr>; t = tasks m ! i in
      case agents agent_name of
        None \<Rightarrow> Some (w, m)
      | Some agent_info \<Rightarrow>
          if agent_info = [] then Some (w, m)
          else
            (case map_of agent_info ''port'' of
               None \<Rightarrow> Some (w, m)
             | Some port \<Rightarrow>
                 (case post w port (mk_task_data t) of
                    (RequestError, w') \<Rightarrow> Some (w', m)
                  | (Response code body, w') \<Rightarrow>
                      if code = 200 then
                        (case body of
                           None \<Rightarrow> Some (w', m)
                         | Some res \<Rightarrow>
                             (case set_status m (task_id t) InProgress of
                                None \<Rightarrow> Some (w', m)
                              | Some m1 \<Rightarrow>
                                  (case py_get res ''status'' JNull of
                                     None \<Rightarrow> Some (w', m1)
                                   | Some st \<Rightarrow>
                                       if st = JStr ''completed'' then
                                         (case set_status m1 (task_id t) Completed of
                                            None \<Rightarrow> Some (w', m1)
                                          | Some m2 \<Rightarrow>
                                              (case py_get res ''result'' (JStr []) of
                                                 None \<Rightarrow> Some (w', m2)
                                               | Some r \<Rightarrow>
                                                   map_option state_of
                                                     (check_and_assign_waiting_tasks
                                                        (send_task_to_agent fuel post agents)
                                                        (w', set_result m2 i r))))
                                       else Some (w', m1))))
                      else Some (w', m))))"

text \<open>The first loop of \<^verbatim>\<open>assign_tasks\<close>: every sorted task gets a fresh entry.\<close>

definition init_status :: "manager \<Rightarrow> nat list \<Rightarrow> manager" where
  "init_status m sorted_tasks =
     fold (\<lambda>i m. m\<lparr>task_status := (task_status m)(task_id (tasks m ! i) \<mapsto>
                      \<lparr>st_status = NotStarted, assigned_agent = agent (tasks m ! i)\<rparr>)\<rparr>)
       sorted_tasks m"

text \<open>The second loop of \<^verbatim>\<open>assign_tasks\<close>.\<close>

fun assign_loop ::
  "(string \<Rightarrow> nat \<Rightarrow> 'w \<times> manager \<Rightarrow> ('w \<times> manager) option) \<Rightarrow> nat list \<Rightarrow> 'w \<times> manager
     \<Rightarrow> ('w \<times> manager) outcome option" where
  "assign_loop send [] s = Some (Returns s)"
| "assign_loop send (i # is) (w, m) =
     (if can_assign_task m (tasks m ! i)
      then
        (case send (agent (tasks m ! i)) i (w, m) of
           None \<Rightarrow> None
         | Some (w', m') \<Rightarrow>
             (case set_status m' (task_id (tasks m' ! i)) Assigned of
                None \<Rightarrow> Some (Raises (w', m'))
              | Some m'' \<Rightarrow> assign_loop send is (w', m'')))
      else assign_loop send is (w, m))"

definition assign_tasks ::
  "nat \<Rightarrow> 'w post \<Rightarrow> registry \<Rightarrow> 'w \<times> manager \<Rightarrow> ('w \<times> manager) outcome option" where
  "assign_tasks fuel post agents s =
     (if tasks (snd s) = [] then Some (Returns s)
      else
        (case sort_tasks_by_dependencies (tasks (snd s)) of
           None \<Rightarrow> Some (Raises s)
         | Some sorted_tasks \<Rightarrow>
             assign_loop (send_task_to_agent fuel post agents) sorted_tasks
               (fst s, init_status (snd s) sorted_tasks)))"

section \<open>Completion poller\<close>

type_synonym 'w get = "'w \<Rightarrow> json \<Rightarrow> string \<Rightarrow> reply \<times> 'w"

text \<open>Python's truth value of a JSON value (\<^verbatim>\<open>not current_task\<close>).\<close>

fun truthy :: "json \<Rightarrow> bool" where
  "truthy JNull = False"
| "truthy (JBool b) = b"
| "truthy (JInt n) = (n \<noteq> 0)"
| "truthy (JStr s) = (s \<noteq> [])"
| "truthy (JList xs) = (xs \<noteq> [])"
| "truthy (JDict kvs) = (kvs \<noteq> [])"

text \<open>
  The elements a \<^verbatim>\<open>for\<close> loop visits: of a list its items, of a string its
  characters, of a dict its keys; anything else is not iterable and raises
  \<^verbatim>\<open>TypeError\<close> (\<open>None\<close>).
\<close>

fun py_iter :: "json \<Rightarrow> json list option" where
  "py_iter (JList xs) = Some xs"
| "py_iter (JStr s) = Some (map (\<lambda>c. JStr [c]) s)"
| "py_iter (JDict kvs) = Some (map (\<lambda>kv. JStr (fst kv)) kvs)"
| "py_iter _ = None"

text \<open>
  The search \<^verbatim>\<open>for result in results\<close> for the entry whose
  \<^verbatim>\<open>result.get("task", {}).get("id")\<close> equals the task id. The outer
  \<open>None\<close> is a raise, \<open>Some None\<close> the loop running out, \<open>Some (Some r)\<close>
  a match whose \<^verbatim>\<open>result.get("result", "")\<close> is \<open>r\<close>.
\<close>

fun find_result :: "string \<Rightarrow> json list \<Rightarrow> json option option" where
  "find_result tid [] = Some None"
| "find_result tid (r # rs) =
     (case py_get r ''task'' (JDict []) of
        None \<Rightarrow> None
      | Some t \<Rightarrow>
          (case py_get t ''id'' JNull of
             None \<Rightarrow> None
           | Some v \<Rightarrow>
               if v = JStr tid then
                 (case py_get r ''result'' (JStr []) of None \<Rightarrow> None | Some res \<Rightarrow> Some (Some res))
               else find_result tid rs))"

text \<open>
  The body of the \<^verbatim>\<open>try\<close> in \<^verbatim>\<open>update_task_status\<close> for the task at
  position \<open>i\<close>; every raise inside it is caught and logged, so the state
  reached is returned.
\<close>

definition poll_task :: "'w get \<Rightarrow> json dict \<Rightarrow> nat \<Rightarrow> 'w \<times> manager \<Rightarrow> 'w \<times> manager" where
  "poll_task get agent_info i s =
     (let w = fst s; m = snd s; t = tasks m ! i in
      case map_of agent_info ''port'' of
        None \<Rightarrow> (w, m)
      | Some port \<Rightarrow>
          (case get w port ''/status'' of
             (RequestError, w1) \<Rightarrow> (w1, m)
           | (Response code body, w1) \<Rightarrow>
               if code = 200 then
                 (case body of
                    None \<Rightarrow> (w1, m)
                  | Some status_data \<Rightarrow>
                      (case py_get status_data ''current_task'' JNull of
                         None \<Rightarrow> (w1, m)
                       | Some current_task \<Rightarrow>
                           if \<not> truthy current_task
                              \<or> py_get status_data ''status'' JNull = Some (JStr ''idle'')
                           then
                             (case get w1 port ''/results'' of
                                (RequestError, w2) \<Rightarrow> (w2, m)
                              | (Response code2 body2, w2) \<Rightarrow>
                                  if code2 = 200 then
                                    (case body2 of
                                       None \<Rightarrow> (w2, m)
                                     | Some result_data \<Rightarrow>
                                         (case py_get result_data ''results'' (JList []) of
                                            None \<Rightarrow> (w2, m)
                                          | Some results \<Rightarrow>
                                              (case py_iter results of
                                                 None \<Rightarrow> (w2, m)
                                               | Some rs \<Rightarrow>
                                                   (case find_result (task_id t) rs of
                                                      None \<Rightarrow> (w2, m)
                                                    | Some None \<Rightarrow> (w2, m)
                                                    | Some (Some res) \<Rightarrow>
                                                        (case set_status m (task_id t) Completed of
                                                           None \<Rightarrow> (w2, m)
                                                         | Some m1 \<Rightarrow> (w2, set_result m1 i res))))))
                                  else (w2, m))
                           else (w1, m)))
               else (w1, m)))"

text \<open>One iteration of \<^verbatim>\<open>for task in self.tasks\<close> in \<^verbatim>\<open>update_task_status\<close>.\<close>

definition update_step :: "'w get \<Rightarrow> registry \<Rightarrow> nat \<Rightarrow> 'w \<times> manager \<Rightarrow> 'w \<times> manager" where
  "update_step get agents i s =
     (let m = snd s; t = tasks m ! i in
      if status_entry m (task_id t) = Some InProgress then
        (case agents (agent t) of
           None \<Rightarrow> s
         | Some agent_info \<Rightarrow> if agent_info = [] then s else poll_task get agent_info i s)
      else s)"

definition update_task_status :: "'w get \<Rightarrow> registry \<Rightarrow> 'w \<times> manager \<Rightarrow> 'w \<times> manager" where
  "update_task_status get agents s =
     fold (update_step get agents) [0..<length (tasks (snd s))] s"

section \<open>Worker task executor\<close>

text \<open>A call that returns a value or raises an exception with a message.\<close>

datatype 'a attempt = Raised string | Returned 'a

text \<open>An entry of \<^verbatim>\<open>self.task_results\<close>.\<close>

record result_entry =
  r_task :: json
  r_result :: string
  r_status :: string

record sub_agent =
  sa_name :: string
  sa_role :: string
  agent_workspace :: string
  current_task :: json
  task_results :: "result_entry list"
  sa_status :: string

record http_response =
  status_code :: int
  json_body :: json

text \<open>
  What lies outside the worker object, the file system and the external
  tool, is a state \<open>'w\<close>. \<open>run_tool workspace prompt\<close> is the \<^verbatim>\<open>try\<close> block
  of \<^verbatim>\<open>claude_code_execute\<close> up to the test of the return code: the
  temporary file, the subprocess, \<^verbatim>\<open>communicate\<close>, \<^verbatim>\<open>os.unlink\<close> and the
  decoding. It either raises (\<open>ToolRaised\<close>, for instance when the tool is not
  installed) or yields the return code with the decoded standard output and
  standard error. \<open>write_file directory name content\<close> is the \<^verbatim>\<open>open\<close> and
  \<^verbatim>\<open>write\<close> of a result file; it yields the message of the exception it
  raises, if any. \<open>str_of\<close> is Python's \<^verbatim>\<open>str\<close> on the values that are
  not strings.
\<close>

datatype tool_run = ToolRaised string | ToolExited int string string

record 'w worker_env =
  str_of :: "json \<Rightarrow> string"
  run_tool :: "string \<Rightarrow> string \<Rightarrow> 'w \<Rightarrow> tool_run \<times> 'w"
  write_file :: "string \<Rightarrow> string \<Rightarrow> string \<Rightarrow> 'w \<Rightarrow> string option \<times> 'w"

text \<open>A value formatted by a replacement field of an f-string.\<close>

definition py_str :: "'w worker_env \<Rightarrow> json \<Rightarrow> string" where
  "py_str env v = (case v of JStr s \<Rightarrow> s | _ \<Rightarrow> str_of env v)"

definition newline :: string where
  "newline = [CHR 0x0A]"

definition text_lines :: "string list \<Rightarrow> string" where
  "text_lines ls = concat (map (\<lambda>l. l @ newline) ls)"

text \<open>
  \<^verbatim>\<open>claude_code_execute(prompt)\<close>: whatever the \<^verbatim>\<open>try\<close> block raises is
  caught and returned as text, and so is a non-zero return code.
\<close>

definition claude_code_execute :: "'w worker_env \<Rightarrow> sub_agent \<Rightarrow> string \<Rightarrow> 'w \<Rightarrow> string \<times> 'w" where
  "claude_code_execute env a prompt w =
     (case run_tool env (agent_workspace a) prompt w of
        (ToolRaised e, w') \<Rightarrow> (''Failed to execute task: '' @ e, w')
      | (ToolExited returncode out err, w') \<Rightarrow>
          (if returncode = 0 then out else ''Task execution failed: '' @ err, w'))"

text \<open>The prompts of the five role handlers, as functions of the two replacement fields.\<close>

definition development_prompt :: "string \<Rightarrow> string \<Rightarrow> string" where
  "development_prompt ttl task_description =
     newline @ text_lines
       [''Task: '' @ ttl,
        ''Description: '' @ task_description,
        [],
        ''Please implement the requested functionality. Focus on:'',
        ''1. Writing clean, maintainable code'',
        ''2. Following best practices'',
        ''3. Adding appropriate error handling'',
        ''4. Including relevant comments'',
        ''5. Ensuring the code is testable'']"

definition qa_prompt :: "string \<Rightarrow> string \<Rightarrow> string" where
  "qa_prompt ttl task_description =
     newline @ text_lines
       [''Task: '' @ ttl,
        ''Description: '' @ task_description,
        [],
        ''Please create comprehensive tests for the functionality. Include:'',
        ''1. Unit tests for individual components'',
        ''2. Integration tests for component interactions'',
        ''3. Edge case testing'',
        ''4. Error handling validation'',
        ''5. Performance considerations'',
        ''6. Test documentation'']"

definition design_prompt :: "string \<Rightarrow> string \<Rightarrow> string" where
  "design_prompt ttl task_description =
     newline @ text_lines
       [''Task: '' @ ttl,
        ''Description: '' @ task_description,
        [],
        ''Please create UI/UX designs focusing on:'',
        ''1. User experience and usability'',
        ''2. Visual design and aesthetics'',
        ''3. Responsive design principles'',
        ''4. Accessibility considerations'',
        ''5. Design system consistency'',
        ''6. User interface specifications'']"

definition architecture_prompt :: "string \<Rightarrow> string \<Rightarrow> string" where
  "architecture_prompt ttl task_description =
     newline @ text_lines
       [''Task: '' @ ttl,
        ''Description: '' @ task_description,
        [],
        ''Please design the system architecture considering:'',
        ''1. System components and their relationships'',
        ''2. Data flow and processing patterns'',
        ''3. Scalability and performance requirements'',
        ''4. Security considerations'',
        ''5. Technology stack recommendations'',
        ''6. Deployment and infrastructure needs'']"

definition generic_prompt :: "string \<Rightarrow> string \<Rightarrow> string" where
  "generic_prompt ttl task_description =
     newline @ text_lines
       [''Task: '' @ ttl,
        ''Description: '' @ task_description,
        [],
        ''Please complete this task with attention to:'',
        ''1. Understanding the requirements clearly'',
        ''2. Providing a comprehensive solution'',
        ''3. Considering edge cases and limitations'',
        ''4. Documenting the approach and results'',
        ''5. Ensuring quality and completeness'']"

text \<open>
  The message of the \<^verbatim>\<open>AttributeError\<close> that \<^verbatim>\<open>task.get\<close> raises on a
  value that is not a dict.
\<close>

definition type_name :: "json \<Rightarrow> string" where
  "type_name v =
     (case v of JNull \<Rightarrow> ''NoneType'' | JBool b \<Rightarrow> ''bool'' | JInt n \<Rightarrow> ''int''
      | JStr s \<Rightarrow> ''str'' | JList xs \<Rightarrow> ''list'' | JDict kvs \<Rightarrow> ''dict'')"

definition attribute_error :: "json \<Rightarrow> string" where
  "attribute_error v = [CHR 0x27] @ type_name v @ [CHR 0x27] @ '' object has no attribute '' @ [CHR 0x27] @ ''get'' @ [CHR 0x27]"

text \<open>
  The five role handlers: build the prompt, run the tool through
  \<^verbatim>\<open>claude_code_execute\<close>, write the result file into the agent's workspace
  and return the result. An exception of the file write is not caught here.
\<close>

definition handle_development_task ::
  "'w worker_env \<Rightarrow> sub_agent \<Rightarrow> json \<Rightarrow> 'w \<Rightarrow> string attempt \<times> 'w" where
  "handle_development_task env a t w =
     (case (py_get t ''description'' (JStr []), py_get t ''title'' (JStr ''Development Task''),
            py_get t ''id'' (JStr ''unknown'')) of
        (Some task_description, Some ttl, Some tid) \<Rightarrow>
          (let prompt = development_prompt (py_str env ttl) (py_str env task_description);
               (res, w1) = claude_code_execute env a prompt w;
               (failure, w2) = write_file env (agent_workspace a)
                                 (''task_'' @ py_str env tid @ ''_result.md'')
                                 (''# Development Task Result'' @ newline @ newline @ res) w1
           in (case failure of Some e \<Rightarrow> Raised e | None \<Rightarrow> Returned res, w2))
      | _ \<Rightarrow> (Raised (attribute_error t), w))"

definition handle_qa_task ::
  "'w worker_env \<Rightarrow> sub_agent \<Rightarrow> json \<Rightarrow> 'w \<Rightarrow> string attempt \<times> 'w" where
  "handle_qa_task env a t w =
     (case (py_get t ''description'' (JStr []), py_get t ''title'' (JStr ''QA Task''),
            py_get t ''id'' (JStr ''unknown'')) of
        (Some task_description, Some ttl, Some tid) \<Rightarrow>
          (let prompt = qa_prompt (py_str env ttl) (py_str env task_description);
               (res, w1) = claude_code_execute env a prompt w;
               (failure, w2) = write_file env (agent_workspace a)
                                 (''task_'' @ py_str env tid @ ''_tests.md'')
                                 (''# QA Task Result'' @ newline @ newline @ res) w1
           in (case failure of Some e \<Rightarrow> Raised e | None \<Rightarrow> Returned res, w2))
      | _ \<Rightarrow> (Raised (attribute_error t), w))"

definition handle_design_task ::
  "'w worker_env \<Rightarrow> sub_agent \<Rightarrow> json \<Rightarrow> 'w \<Rightarrow> string attempt \<times> 'w" where
  "handle_design_task env a t w =
     (case (py_get t ''description'' (JStr []), py_get t ''title'' (JStr ''Design Task''),
            py_get t ''id'' (JStr ''unknown'')) of
        (Some task_description, Some ttl, Some tid) \<Rightarrow>
          (let prompt = design_prompt (py_str env ttl) (py_str env task_description);
               (res, w1) = claude_code_execute env a prompt w;
               (failure, w2) = write_file env (agent_workspace a)
                                 (''task_'' @ py_str env tid @ ''_design.md'')
                                 (''# Design Task Result'' @ newline @ newline @ res) w1
           in (case failure of Some e \<Rightarrow> Raised e | None \<Rightarrow> Returned res, w2))
      | _ \<Rightarrow> (Raised (attribute_error t), w))"

definition handle_architecture_task ::
  "'w worker_env \<Rightarrow> sub_agent \<Rightarrow> json \<Rightarrow> 'w \<Rightarrow> string attempt \<times> 'w" where
  "handle_architecture_task env a t w =
     (case (py_get t ''description'' (JStr []), py_get t ''title'' (JStr ''Architecture Task''),
            py_get t ''id'' (JStr ''unknown'')) of
        (Some task_description, Some ttl, Some tid) \<Rightarrow>
          (let prompt = architecture_prompt (py_str env ttl) (py_str env task_description);
               (res, w1) = claude_code_execute env a prompt w;
               (failure, w2) = write_file env (agent_workspace a)
                                 (''task_'' @ py_str env tid @ ''_architecture.md'')
                                 (''# Architecture Task Result'' @ newline @ newline @ res) w1
           in (case failure of Some e \<Rightarrow> Raised e | None \<Rightarrow> Returned res, w2))
      | _ \<Rightarrow> (Raised (attribute_error t), w))"

definition handle_generic_task ::
  "'w worker_env \<Rightarrow> sub_agent \<Rightarrow> json \<Rightarrow> 'w \<Rightarrow> string attempt \<times> 'w" where
  "handle_generic_task env a t w =
     (case (py_get t ''description'' (JStr []), py_get t ''title'' (JStr ''Generic Task''),
            py_get t ''id'' (JStr ''unknown'')) of
        (Some task_description, Some ttl, Some tid) \<Rightarrow>
          (let prompt = generic_prompt (py_str env ttl) (py_str env task_description);
               (res, w1) = claude_code_execute env a prompt w;
               (failure, w2) = write_file env (agent_workspace a)
                                 (''task_'' @ py_str env tid @ ''_generic.md'')
                                 (''# Generic Task Result'' @ newline @ newline @ res) w1
           in (case failure of Some e \<Rightarrow> Raised e | None \<Rightarrow> Returned res, w2))
      | _ \<Rightarrow> (Raised (attribute_error t), w))"

text \<open>
  \<^verbatim>\<open>process_task\<close>: the two \<^verbatim>\<open>task.get\<close> calls at its head raise on a
  value that is not a dict, then the role selects the handler.
\<close>

definition process_task ::
  "'w worker_env \<Rightarrow> sub_agent \<Rightarrow> json \<Rightarrow> 'w \<Rightarrow> string attempt \<times> 'w" where
  "process_task env a t w =
     (case (py_get t ''type'' (JStr []), py_get t ''description'' (JStr [])) of
        (Some task_type, Some task_description) \<Rightarrow>
          if sa_role a = ''code_implementation'' then handle_development_task env a t w
          else if sa_role a = ''quality_assurance'' then handle_qa_task env a t w
          else if sa_role a = ''ui_ux_design'' then handle_design_task env a t w
          else if sa_role a = ''system_architecture'' then handle_architecture_task env a t w
          else handle_generic_task env a t w
      | _ \<Rightarrow> (Raised (attribute_error t), w))"

text \<open>The \<^verbatim>\<open>except Exception as e\<close> branch of \<^verbatim>\<open>execute_task\<close>.\<close>

definition task_failed :: "string \<Rightarrow> sub_agent \<Rightarrow> 'w \<Rightarrow> http_response \<times> sub_agent \<times> 'w" where
  "task_failed e a w =
     (\<lparr>status_code = 500, json_body = JDict [(''status'', JStr ''failed''), (''error'', JStr e)]\<rparr>,
      a\<lparr>sa_status := ''error''\<rparr>, w)"

text \<open>
  \<^verbatim>\<open>execute_task(request)\<close>; \<open>request\<close> is what \<^verbatim>\<open>await request.json()\<close>
  comes to. The result is the response, the worker object and the outside
  state after the call.
\<close>

definition execute_task ::
  "'w worker_env \<Rightarrow> json attempt \<Rightarrow> sub_agent \<Rightarrow> 'w \<Rightarrow> http_response \<times> sub_agent \<times> 'w" where
  "execute_task env request a w =
     (case request of
        Raised e \<Rightarrow> task_failed e a w
      | Returned task_data \<Rightarrow>
          (case py_get task_data ''title'' (JStr ''Unknown'') of
             None \<Rightarrow> task_failed (attribute_error task_data) a w
           | Some ttl \<Rightarrow>
               (let a1 = a\<lparr>current_task := task_data, sa_status := ''working''\<rparr> in
                case process_task env a1 task_data w of
                  (Raised e, w') \<Rightarrow> task_failed e a1 w'
                | (Returned res, w') \<Rightarrow>
                    (\<lparr>status_code = 200,
                      json_body = JDict [(''status'', JStr ''completed''), (''result'', JStr res)]\<rparr>,
                     a1\<lparr>task_results := task_results a1 @
                          [\<lparr>r_task = task_data, r_result = res, r_status = ''completed''\<rparr>],
                        current_task := JNull, sa_status := ''idle''\<rparr>,
                     w'))))"

section \<open>Task list parser\<close>

text \<open>
  The character classes \<^verbatim>\<open>\s\<close>, \<^verbatim>\<open>\d\<close> and \<^verbatim>\<open>\w\<close> of the regular
  expressions, which are also what \<^verbatim>\<open>str.strip\<close> and \<^verbatim>\<open>str.isalnum\<close>
  use. A \<open>char\<close> stands for the code point of the same number, so a text is
  a Python string whose code points are all below 256; among these the
  white space is 9 to 13, 28 to 32, 133 and 160, the decimal digits are 48 to
  57, and the further alphanumeric code points are 170, 178, 179, 181, 185,
  186, 188 to 190, 192 to 214, 216 to 246 and 248 to 255.
\<close>

definition is_space :: "char \<Rightarrow> bool" where
  "is_space c \<longleftrightarrow>
     (of_char c :: nat) \<in> {9, 10, 11, 12, 13, 28, 29, 30, 31, 32, 133, 160}"

definition is_digit :: "char \<Rightarrow> bool" where
  "is_digit c \<longleftrightarrow> 48 \<le> (of_char c :: nat) \<and> (of_char c :: nat) \<le> 57"

definition is_word :: "char \<Rightarrow> bool" where
  "is_word c \<longleftrightarrow>
     is_digit c \<or> c = CHR ''_''
     \<or> (65 \<le> (of_char c :: nat) \<and> (of_char c :: nat) \<le> 90)
     \<or> (97 \<le> (of_char c :: nat) \<and> (of_char c :: nat) \<le> 122)
     \<or> (of_char c :: nat) \<in> {170, 178, 179, 181, 185, 186, 188, 189, 190}
     \<or> (192 \<le> (of_char c :: nat) \<and> (of_char c :: nat) \<le> 214)
     \<or> (216 \<le> (of_char c :: nat) \<and> (of_char c :: nat) \<le> 246)
     \<or> (248 \<le> (of_char c :: nat) \<and> (of_char c :: nat) \<le> 255)"

text \<open>\<^verbatim>\<open>s.strip()\<close>\<close>

definition strip :: "string \<Rightarrow> string" where
  "strip s = rev (dropWhile is_space (rev (dropWhile is_space s)))"

text \<open>\<^verbatim>\<open>s.split(',')\<close>\<close>

fun split_comma :: "string \<Rightarrow> string list" where
  "split_comma [] = [[]]"
| "split_comma (c # cs) =
     (if c = CHR '','' then [] # split_comma cs
      else (case split_comma cs of [] \<Rightarrow> [[c]] | w # ws \<Rightarrow> (c # w) # ws))"

text \<open>\<^verbatim>\<open>int(digits)\<close>\<close>

definition int_of_digits :: "string \<Rightarrow> int" where
  "int_of_digits ds = foldl (\<lambda>n c. 10 * n + (int (of_char c) - 48)) 0 ds"

text \<open>A literal at the head of the text: the text after it.\<close>

definition literal :: "string \<Rightarrow> string \<Rightarrow> string option" where
  "literal lit s = (if take (length lit) s = lit then Some (drop (length lit) s) else None)"

text \<open>
  \<^verbatim>\<open>re.search\<close>: the match at the leftmost position of the text where the
  pattern matches.
\<close>

fun search :: "(string \<Rightarrow> 'a option) \<Rightarrow> string \<Rightarrow> 'a option" where
  "search m [] = m []"
| "search m (c # cs) = (case m (c # cs) of Some r \<Rightarrow> Some r | None \<Rightarrow> search m cs)"

text \<open>Group 1 of \<^verbatim>\<open>Priority:\s*(\d+)\<close> matched at the head of the text.\<close>

definition priority_at :: "string \<Rightarrow> string option" where
  "priority_at s =
     (case literal ''Priority:'' s of
        None \<Rightarrow> None
      | Some r \<Rightarrow>
          (let ds = takeWhile is_digit (dropWhile is_space r)
           in if ds = [] then None else Some ds))"

text \<open>Group 1 of \<^verbatim>\<open>Agent:\s*(\w+)\<close> matched at the head of the text.\<close>

definition agent_at :: "string \<Rightarrow> string option" where
  "agent_at s =
     (case literal ''Agent:'' s of
        None \<Rightarrow> None
      | Some r \<Rightarrow>
          (let w = takeWhile is_word (dropWhile is_space r)
           in if w = [] then None else Some w))"

text \<open>
  Group 1 of \<^verbatim>\<open>Dependencies:\s*([^,)]+)\<close> matched at the head of the text:
  the run of characters other than comma and closing parenthesis after the
  white space; when that run is empty, the white space gives its last
  character back to the group.
\<close>

definition deps_at :: "string \<Rightarrow> string option" where
  "deps_at s =
     (case literal ''Dependencies:'' s of
        None \<Rightarrow> None
      | Some r \<Rightarrow>
          (let ws = takeWhile is_space r;
               g = takeWhile (\<lambda>c. c \<noteq> CHR '','' \<and> c \<noteq> CHR '')'') (dropWhile is_space r)
           in if g \<noteq> [] then Some g
              else if ws \<noteq> [] then Some [last ws]
              else None))"

text \<open>
  The metadata part of \<^verbatim>\<open>parse_tasks_markdown\<close>: priority, agent and
  dependencies of one task line.
\<close>

definition parse_metadata :: "string \<Rightarrow> int \<times> string \<times> string list" where
  "parse_metadata task_metadata =
     (let priority = (case search priority_at task_metadata of
                        None \<Rightarrow> 5 | Some ds \<Rightarrow> int_of_digits ds);
          agent = (case search agent_at task_metadata of
                     None \<Rightarrow> ''developer'' | Some w \<Rightarrow> w);
          dependencies =
            (case search deps_at task_metadata of
               None \<Rightarrow> []
             | Some g \<Rightarrow>
                 (let deps_str = strip g
                  in if deps_str \<noteq> [] \<and> deps_str \<noteq> ''none''
                     then map strip (split_comma deps_str) else []))
      in (priority, agent, dependencies))"

text \<open>
  The task pattern
  \<^verbatim>\<open>- \[ \] \*\*([^*]+)\*\* - ([^(]+)\(([^)]+)\)\<close> matched at the
  head of the text: the three groups and the text after the match.
\<close>

definition task_at :: "string \<Rightarrow> ((string \<times> string \<times> string) \<times> string) option" where
  "task_at s =
     (case literal ''- [ ] **'' s of
        None \<Rightarrow> None
      | Some r1 \<Rightarrow>
          (let g1 = takeWhile (\<lambda>c. c \<noteq> CHR ''*'') r1 in
           if g1 = [] then None
           else
             (case literal ''** - '' (dropWhile (\<lambda>c. c \<noteq> CHR ''*'') r1) of
                None \<Rightarrow> None
              | Some r2 \<Rightarrow>
                  (let g2 = takeWhile (\<lambda>c. c \<noteq> CHR ''('') r2 in
                   if g2 = [] then None
                   else
                     (case literal ''('' (dropWhile (\<lambda>c. c \<noteq> CHR ''('') r2) of
                        None \<Rightarrow> None
                      | Some r3 \<Rightarrow>
                          (let g3 = takeWhile (\<lambda>c. c \<noteq> CHR '')'') r3 in
                           if g3 = [] then None
                           else
                             (case literal '')'' (dropWhile (\<lambda>c. c \<noteq> CHR '')'') r3) of
                                None \<Rightarrow> None
                              | Some r4 \<Rightarrow> Some ((g1, g2, g3), r4))))))))"

text \<open>The decimal numeral of a natural number, for \<^verbatim>\<open>f"task_{len(tasks) + 1}"\<close>.\<close>

fun decimal :: "nat \<Rightarrow> string" where
  "decimal n =
     (if n < 10 then [char_of (48 + n)]
      else decimal (n div 10) @ [char_of (48 + n mod 10)])"

text \<open>
  The loop over \<^verbatim>\<open>re.finditer(task_pattern, content)\<close>: \<open>skip\<close> counts the
  characters still covered by the last match, inside which no match starts;
  \<open>n\<close> is the number of tasks built so far.
\<close>

fun find_tasks :: "nat \<Rightarrow> nat \<Rightarrow> string \<Rightarrow> task list" where
  "find_tasks n skip [] = []"
| "find_tasks n skip (c # cs) =
     (if 0 < skip then find_tasks n (skip - 1) cs
      else
        (case task_at (c # cs) of
           None \<Rightarrow> find_tasks n 0 cs
         | Some ((g1, g2, g3), rest) \<Rightarrow>
             (case parse_metadata (strip g3) of
                (p, a, deps) \<Rightarrow>
                  \<lparr>task_id = ''task_'' @ decimal (n + 1), title = strip g1,
                   description = strip g2, agent = a, priority = p, dependencies = deps,
                   status = NotStarted, result = JNull\<rparr>
                  # find_tasks (n + 1) (length cs - length rest) cs)))"

definition parse_tasks_markdown :: "string \<Rightarrow> task list" where
  "parse_tasks_markdown content = find_tasks 0 0 content"

section \<open>Predicates and sample data used in the statements\<close>

text \<open>A worker that answers every submission with 200 and a completed result.\<close>

definition completing_post :: "nat post" where
  "completing_post w port p =
     (Response 200 (Some (JDict [(''status'', JStr ''completed''), (''result'', JStr ''ok'')])), Suc w)"

definition one_worker :: registry where
  "one_worker = [''developer'' \<mapsto> [(''port'', JInt 8001)]]"

text \<open>
  The prompt, the name of the result file and the heading of its content
  that the handler of a role uses for a submitted task.
\<close>

definition role_prompt :: "'w worker_env \<Rightarrow> string \<Rightarrow> json \<Rightarrow> string" where
  "role_prompt env role td =
     (let ttl = (\<lambda>dflt. py_str env (the (py_get td ''title'' (JStr dflt))));
          task_description = py_str env (the (py_get td ''description'' (JStr [])))
      in if role = ''code_implementation'' then development_prompt (ttl ''Development Task'') task_description
         else if role = ''quality_assurance'' then qa_prompt (ttl ''QA Task'') task_description
         else if role = ''ui_ux_design'' then design_prompt (ttl ''Design Task'') task_description
         else if role = ''system_architecture'' then architecture_prompt (ttl ''Architecture Task'') task_description
         else generic_prompt (ttl ''Generic Task'') task_description)"

definition role_file :: "'w worker_env \<Rightarrow> string \<Rightarrow> json \<Rightarrow> string" where
  "role_file env role td =
     ''task_'' @ py_str env (the (py_get td ''id'' (JStr ''unknown''))) @
     (if role = ''code_implementation'' then ''_result.md''
      else if role = ''quality_assurance'' then ''_tests.md''
      else if role = ''ui_ux_design'' then ''_design.md''
      else if role = ''system_architecture'' then ''_architecture.md''
      else ''_generic.md'')"

definition role_heading :: "string \<Rightarrow> string" where
  "role_heading role =
     (if role = ''code_implementation'' then ''# Development Task Result''
      else if role = ''quality_assurance'' then ''# QA Task Result''
      else if role = ''ui_ux_design'' then ''# Design Task Result''
      else if role = ''system_architecture'' then ''# Architecture Task Result''
      else ''# Generic Task Result'') @ newline @ newline"

text \<open>
  The text the tool run of a submitted dict comes to, and whether the write
  of the result file that follows it raises.
\<close>

definition tool_text :: "'w worker_env \<Rightarrow> sub_agent \<Rightarrow> json \<Rightarrow> 'w \<Rightarrow> string" where
  "tool_text env a td w = fst (claude_code_execute env a (role_prompt env (sa_role a) td) w)"

definition write_raises :: "'w worker_env \<Rightarrow> sub_agent \<Rightarrow> json \<Rightarrow> 'w \<Rightarrow> bool" where
  "write_raises env a td w \<longleftrightarrow>
     fst (write_file env (agent_workspace a) (role_file env (sa_role a) td)
            (role_heading (sa_role a) @ tool_text env a td w)
            (snd (claude_code_execute env a (role_prompt env (sa_role a) td) w))) \<noteq> None"

text \<open>
  An exception reaches the \<^verbatim>\<open>except\<close> branch of \<^verbatim>\<open>execute_task\<close>:
  \<^verbatim>\<open>request.json()\<close> raises, the submitted value is not a dict, or the write
  of the result file raises. What the run of the tool raises does not.
\<close>

definition is_dict :: "json \<Rightarrow> bool" where
  "is_dict v = (case v of JDict kvs \<Rightarrow> True | _ \<Rightarrow> False)"

definition exception_reaches_handler :: "'w worker_env \<Rightarrow> json attempt \<Rightarrow> sub_agent \<Rightarrow> 'w \<Rightarrow> bool" where
  "exception_reaches_handler env request a w =
     (case request of
        Raised e \<Rightarrow> True
      | Returned td \<Rightarrow> \<not> is_dict td \<or> write_raises env a td w)"

text \<open>
  Four environments: the tool is not installed; the tool exits with a
  non-zero code; the tool runs but the disk is full; everything works.
\<close>

definition missing_tool_env :: "nat worker_env" where
  "missing_tool_env =
     \<lparr>str_of = (\<lambda>v. []),
      run_tool = (\<lambda>workspace prompt w. (ToolRaised ''[Errno 2] No such file or directory: claude-code'', Suc w)),
      write_file = (\<lambda>directory name content w. (None, Suc w))\<rparr>"

definition full_disk_env :: "nat worker_env" where
  "full_disk_env =
     \<lparr>str_of = (\<lambda>v. []),
      run_tool = (\<lambda>workspace prompt w. (ToolExited 0 ''done'' [], Suc w)),
      write_file = (\<lambda>directory name content w. (Some ''[Errno 28] No space left on device'', Suc w))\<rparr>"

definition failing_tool_env :: "nat worker_env" where
  "failing_tool_env =
     \<lparr>str_of = (\<lambda>v. []),
      run_tool = (\<lambda>workspace prompt w. (ToolExited 1 [] ''unknown option --prompt'', Suc w)),
      write_file = (\<lambda>directory name content w. (None, Suc w))\<rparr>"

definition working_env :: "nat worker_env" where
  "working_env =
     \<lparr>str_of = (\<lambda>v. []),
      run_tool = (\<lambda>workspace prompt w. (ToolExited 0 ''done'' [], Suc w)),
      write_file = (\<lambda>directory name content w. (None, Suc w))\<rparr>"

definition idle_agent :: sub_agent where
  "idle_agent =
     \<lparr>sa_name = ''developer'', sa_role = ''code_implementation'', agent_workspace = ''/work/agent_developer'',
      current_task = JNull,
      task_results = [\<lparr>r_task = JDict [(''id'', JStr ''task_0'')], r_result = ''done'',
                       r_status = ''completed''\<rparr>],
      sa_status = ''idle''\<rparr>"

definition sample_task :: json where
  "sample_task =
     JDict [(''id'', JStr ''task_1''), (''title'', JStr ''T''),
            (''description'', JStr ''d''), (''type'', JStr ''generic''),
            (''priority'', JInt 5)]"

text \<open>
  The submission of task \<open>t\<close> fails at transport level: the owning worker is
  not registered, the request raises, or the response is not a 200.
\<close>

definition transport_failure :: "'w post \<Rightarrow> registry \<Rightarrow> string \<Rightarrow> task \<Rightarrow> 'w \<Rightarrow> bool" where
  "transport_failure post agents agent_name t w =
     (case agents agent_name of
        None \<Rightarrow> True
      | Some agent_info \<Rightarrow>
          agent_info = [] \<or>
          (case map_of agent_info ''port'' of
             None \<Rightarrow> False
           | Some port \<Rightarrow>
               (case fst (post w port (mk_task_data t)) of
                  RequestError \<Rightarrow> True
                | Response code body \<Rightarrow> code \<noteq> 200)))"

text \<open>
  What one or more iterations of the loop of \<^verbatim>\<open>update_task_status\<close> may
  change: the result field of a task whose tracked status goes from
  \<open>InProgress\<close> to \<open>Completed\<close>, and that status.
\<close>

definition poll_frame :: "manager \<Rightarrow> manager \<Rightarrow> bool" where
  "poll_frame m m' \<longleftrightarrow>
     length (tasks m') = length (tasks m) \<and> calls m' = calls m
     \<and> (\<forall>j<length (tasks m).
           (tasks m' ! j)\<lparr>result := result (tasks m ! j)\<rparr> = tasks m ! j
           \<and> (tasks m' ! j \<noteq> tasks m ! j \<longrightarrow>
                status_entry m (task_id (tasks m ! j)) = Some InProgress
                \<and> status_entry m' (task_id (tasks m ! j)) = Some Completed))
     \<and> (\<forall>k. task_status m' k = task_status m k
            \<or> (status_entry m k = Some InProgress \<and> status_entry m' k = Some Completed
                \<and> task_status m' k = map_option (\<lambda>e. e\<lparr>st_status := Completed\<rparr>) (task_status m k)))"


text \<open>A worker that reports idle and a result log holding \<open>task_1\<close>.\<close>

definition polling_get :: "nat get" where
  "polling_get w port path =
     (if path = ''/status''
      then Response 200 (Some (JDict [(''status'', JStr ''idle''), (''current_task'', JNull)]))
      else Response 200 (Some (JDict [(''results'', JList
             [JDict [(''task'', JDict [(''id'', JStr ''task_1'')]), (''result'', JStr ''done''),
                     (''status'', JStr ''completed'')]])])),
      Suc w)"

definition polled_manager :: manager where
  "polled_manager =
     \<lparr>tasks = [mk_task ''task_1'' ''A'' 1 [], mk_task ''task_2'' ''B'' 2 [''A'']],
      task_status = [''task_1'' \<mapsto> \<lparr>st_status = InProgress, assigned_agent = ''developer''\<rparr>,
                     ''task_2'' \<mapsto> \<lparr>st_status = Assigned, assigned_agent = ''developer''\<rparr>],
      calls = []\<rparr>"

section \<open>Predicates for the scheduler proofs\<close>

text \<open>The in-degree of title \<open>t\<close> counted in the graph, leaving out the edges from the titles in \<open>P\<close>.\<close>

definition indeg :: "string list dict \<Rightarrow> string set \<Rightarrow> string \<Rightarrow> nat" where
  "indeg graph P t = sum_list (map (\<lambda>(d, ns). if d \<in> P then 0 else count_list ns t) graph)"



text \<open>The sort key of a queued title.\<close>

definition queue_key :: "nat dict \<Rightarrow> task list \<Rightarrow> string \<Rightarrow> int" where
  "queue_key task_map ts x = (case map_of task_map x of None \<Rightarrow> 0 | Some i \<Rightarrow> priority (ts ! i))"





text \<open>Two tasks that carry the same title.\<close>

definition two_same_title :: "task list" where
  "two_same_title = [mk_task ''task_1'' ''A'' 1 [], mk_task ''task_2'' ''A'' 2 []]"

text \<open>\<open>a\<close> occurs in the list at a position before an occurrence of \<open>b\<close>.\<close>

definition before :: "'a \<Rightarrow> 'a \<Rightarrow> 'a list \<Rightarrow> bool" where
  "before a b xs \<longleftrightarrow> (\<exists>us rest. xs = us @ a # rest \<and> b \<in> set rest)"

text \<open>Two ready tasks: \<open>X\<close> with priority 5, then \<open>Y\<close> with priority 1.\<close>

definition scenario_b :: "task list" where
  "scenario_b = [mk_task ''task_1'' ''X'' 5 [], mk_task ''task_2'' ''Y'' 1 []]"

section \<open>Properties of eligibility\<close>

lemma can_assign_deps_iff:
  "can_assign_deps m deps \<longleftrightarrow>
     (\<forall>dep \<in> set deps. \<forall>dt. find (\<lambda>t. title t = dep) (tasks m) = Some dt
        \<longrightarrow> tracked_status m (task_id dt) = Completed)"
  by (induction deps) (auto split: option.splits)

lemma find_title_None: "find (\<lambda>t. title t = dep) ts = None \<longleftrightarrow> dep \<notin> title ` set ts"
  by (auto simp: find_None_iff)

text \<open>
  Claim C3. \<open>can_assign_task\<close> holds exactly when every dependency title of the
  task that resolves to a task of the set (the first one carrying the title)
  has tracked status \<open>Completed\<close>; a title matching no task never blocks, so a
  task all of whose dependency titles are unresolved is assignable.
\<close>

theorem can_assign_task_iff:
  "(can_assign_task m t \<longleftrightarrow>
      (\<forall>dep \<in> set (dependencies t). \<forall>dt.
          find (\<lambda>x. title x = dep) (tasks m) = Some dt
            \<longrightarrow> tracked_status m (task_id dt) = Completed))
   \<and> ((\<forall>dep \<in> set (dependencies t). dep \<notin> title ` set (tasks m))
        \<longrightarrow> can_assign_task m t)"
proof
  show iff: "can_assign_task m t \<longleftrightarrow>
      (\<forall>dep \<in> set (dependencies t). \<forall>dt.
          find (\<lambda>x. title x = dep) (tasks m) = Some dt
            \<longrightarrow> tracked_status m (task_id dt) = Completed)"
    unfolding can_assign_task_def by (rule can_assign_deps_iff)
  show "(\<forall>dep \<in> set (dependencies t). dep \<notin> title ` set (tasks m))
        \<longrightarrow> can_assign_task m t"
  proof
    assume un: "\<forall>dep \<in> set (dependencies t). dep \<notin> title ` set (tasks m)"
    have "\<forall>dep \<in> set (dependencies t). find (\<lambda>x. title x = dep) (tasks m) = None"
      using un by (simp add: find_title_None)
    then show "can_assign_task m t"
      unfolding iff by simp
  qed
qed

theorem can_assign_task_iff_witness:
  "''ghost'' \<notin> title ` set (tasks \<lparr>tasks = [mk_task ''task_1'' ''A'' 1 [], mk_task ''task_2'' ''D'' 5 [''ghost'']],
                                      task_status = Map.empty, calls = []\<rparr>)
   \<and> can_assign_task \<lparr>tasks = [mk_task ''task_1'' ''A'' 1 [], mk_task ''task_2'' ''D'' 5 [''ghost'']],
                       task_status = Map.empty, calls = []\<rparr>
         (mk_task ''task_2'' ''D'' 5 [''ghost''])"
  using can_assign_task_iff
    [of "\<lparr>tasks = [mk_task ''task_1'' ''A'' 1 [], mk_task ''task_2'' ''D'' 5 [''ghost'']],
          task_status = Map.empty, calls = []\<rparr>"
        "mk_task ''task_2'' ''D'' 5 [''ghost'']"]
  by (simp add: mk_task_def)

section \<open>Worker result log\<close>

lemma claude_code_execute_agent:
  "claude_code_execute env (a\<lparr>current_task := c, sa_status := st\<rparr>) p w = claude_code_execute env a p w"
  by (simp add: claude_code_execute_def)

lemma py_get_non_dict: "\<not> is_dict td \<Longrightarrow> py_get td k d = None"
  by (cases td) (simp_all add: is_dict_def)

lemma is_dict_ex: "is_dict td \<Longrightarrow> \<exists>kvs. td = JDict kvs"
  by (cases td) (simp_all add: is_dict_def)

lemma handle_development_task_dict:
  "handle_development_task env a (JDict kvs) w =
     (let r = claude_code_execute env a
                (development_prompt (py_str env (the (py_get (JDict kvs) ''title'' (JStr ''Development Task''))))
                   (py_str env (the (py_get (JDict kvs) ''description'' (JStr []))))) w;
          f = write_file env (agent_workspace a)
                (''task_'' @ py_str env (the (py_get (JDict kvs) ''id'' (JStr ''unknown''))) @ ''_result.md'')
                (''# Development Task Result'' @ newline @ newline @ fst r) (snd r)
      in (case fst f of Some e \<Rightarrow> Raised e | None \<Rightarrow> Returned (fst r), snd f))"
  by (auto simp: handle_development_task_def Let_def split: prod.splits option.splits)

lemma handle_qa_task_dict:
  "handle_qa_task env a (JDict kvs) w =
     (let r = claude_code_execute env a
                (qa_prompt (py_str env (the (py_get (JDict kvs) ''title'' (JStr ''QA Task''))))
                   (py_str env (the (py_get (JDict kvs) ''description'' (JStr []))))) w;
          f = write_file env (agent_workspace a)
                (''task_'' @ py_str env (the (py_get (JDict kvs) ''id'' (JStr ''unknown''))) @ ''_tests.md'')
                (''# QA Task Result'' @ newline @ newline @ fst r) (snd r)
      in (case fst f of Some e \<Rightarrow> Raised e | None \<Rightarrow> Returned (fst r), snd f))"
  by (auto simp: handle_qa_task_def Let_def split: prod.splits option.splits)

lemma handle_design_task_dict:
  "handle_design_task env a (JDict kvs) w =
     (let r = claude_code_execute env a
                (design_prompt (py_str env (the (py_get (JDict kvs) ''title'' (JStr ''Design Task''))))
                   (py_str env (the (py_get (JDict kvs) ''description'' (JStr []))))) w;
          f = write_file env (agent_workspace a)
                (''task_'' @ py_str env (the (py_get (JDict kvs) ''id'' (JStr ''unknown''))) @ ''_design.md'')
                (''# Design Task Result'' @ newline @ newline @ fst r) (snd r)
      in (case fst f of Some e \<Rightarrow> Raised e | None \<Rightarrow> Returned (fst r), snd f))"
  by (auto simp: handle_design_task_def Let_def split: prod.splits option.splits)

lemma handle_architecture_task_dict:
  "handle_architecture_task env a (JDict kvs) w =
     (let r = claude_code_execute env a
                (architecture_prompt (py_str env (the (py_get (JDict kvs) ''title'' (JStr ''Architecture Task''))))
                   (py_str env (the (py_get (JDict kvs) ''description'' (JStr []))))) w;
          f = write_file env (agent_workspace a)
                (''task_'' @ py_str env (the (py_get (JDict kvs) ''id'' (JStr ''unknown''))) @ ''_architecture.md'')
                (''# Architecture Task Result'' @ newline @ newline @ fst r) (snd r)
      in (case fst f of Some e \<Rightarrow> Raised e | None \<Rightarrow> Returned (fst r), snd f))"
  by (auto simp: handle_architecture_task_def Let_def split: prod.splits option.splits)

lemma handle_generic_task_dict:
  "handle_generic_task env a (JDict kvs) w =
     (let r = claude_code_execute env a
                (generic_prompt (py_str env (the (py_get (JDict kvs) ''title'' (JStr ''Generic Task''))))
                   (py_str env (the (py_get (JDict kvs) ''description'' (JStr []))))) w;
          f = write_file env (agent_workspace a)
                (''task_'' @ py_str env (the (py_get (JDict kvs) ''id'' (JStr ''unknown''))) @ ''_generic.md'')
                (''# Generic Task Result'' @ newline @ newline @ fst r) (snd r)
      in (case fst f of Some e \<Rightarrow> Raised e | None \<Rightarrow> Returned (fst r), snd f))"
  by (auto simp: handle_generic_task_def Let_def split: prod.splits option.splits)

lemma process_task_dict:
  "process_task env a (JDict kvs) w =
     (let r = claude_code_execute env a (role_prompt env (sa_role a) (JDict kvs)) w;
          f = write_file env (agent_workspace a) (role_file env (sa_role a) (JDict kvs))
                (role_heading (sa_role a) @ fst r) (snd r)
      in (case fst f of Some e \<Rightarrow> Raised e | None \<Rightarrow> Returned (fst r), snd f))"
proof -
  consider (dev) "sa_role a = ''code_implementation''"
    | (qa) "sa_role a = ''quality_assurance''"
    | (design) "sa_role a = ''ui_ux_design''"
    | (arch) "sa_role a = ''system_architecture''"
    | (gen) "sa_role a \<noteq> ''code_implementation''" "sa_role a \<noteq> ''quality_assurance''"
        "sa_role a \<noteq> ''ui_ux_design''" "sa_role a \<noteq> ''system_architecture''"
    by blast
  then show ?thesis
  proof cases
    case dev
    then show ?thesis
      by (simp add: process_task_def role_prompt_def role_file_def role_heading_def
            handle_development_task_dict)
  next
    case qa
    then show ?thesis
      by (simp add: process_task_def role_prompt_def role_file_def role_heading_def
            handle_qa_task_dict)
  next
    case design
    then show ?thesis
      by (simp add: process_task_def role_prompt_def role_file_def role_heading_def
            handle_design_task_dict)
  next
    case arch
    then show ?thesis
      by (simp add: process_task_def role_prompt_def role_file_def role_heading_def
            handle_architecture_task_dict)
  next
    case gen
    then show ?thesis
      by (simp add: process_task_def role_prompt_def role_file_def role_heading_def
            handle_generic_task_dict)
  qed
qed

lemma execute_task_non_dict:
  "\<not> is_dict td \<Longrightarrow> execute_task env (Returned td) a w = task_failed (attribute_error td) a w"
  by (simp add: execute_task_def py_get_non_dict)

lemma execute_task_write_raises:
  assumes "write_raises env a (JDict kvs) w"
  shows "\<exists>e w'. execute_task env (Returned (JDict kvs)) a w
           = task_failed e (a\<lparr>current_task := JDict kvs, sa_status := ''working''\<rparr>) w'"
proof -
  obtain e where "fst (write_file env (agent_workspace a) (role_file env (sa_role a) (JDict kvs))
            (role_heading (sa_role a) @ tool_text env a (JDict kvs) w)
            (snd (claude_code_execute env a (role_prompt env (sa_role a) (JDict kvs)) w))) = Some e"
    using assms unfolding write_raises_def by blast
  then have "execute_task env (Returned (JDict kvs)) a w
      = task_failed e (a\<lparr>current_task := JDict kvs, sa_status := ''working''\<rparr>)
          (snd (write_file env (agent_workspace a) (role_file env (sa_role a) (JDict kvs))
            (role_heading (sa_role a) @ tool_text env a (JDict kvs) w)
            (snd (claude_code_execute env a (role_prompt env (sa_role a) (JDict kvs)) w))))"
    by (simp add: execute_task_def process_task_dict claude_code_execute_agent tool_text_def Let_def)
  then show ?thesis by (intro exI)
qed

lemma execute_task_written:
  assumes "\<not> write_raises env a (JDict kvs) w"
  shows "\<exists>w'. execute_task env (Returned (JDict kvs)) a w
           = (\<lparr>status_code = 200,
                json_body = JDict [(''status'', JStr ''completed''),
                                   (''result'', JStr (tool_text env a (JDict kvs) w))]\<rparr>,
              a\<lparr>current_task := JNull, sa_status := ''idle'',
                task_results := task_results a @
                  [\<lparr>r_task = JDict kvs, r_result = tool_text env a (JDict kvs) w,
                     r_status = ''completed''\<rparr>]\<rparr>,
              w')"
proof -
  have "fst (write_file env (agent_workspace a) (role_file env (sa_role a) (JDict kvs))
            (role_heading (sa_role a) @ tool_text env a (JDict kvs) w)
            (snd (claude_code_execute env a (role_prompt env (sa_role a) (JDict kvs)) w))) = None"
    using assms unfolding write_raises_def by blast
  then show ?thesis
    by (simp add: execute_task_def process_task_dict claude_code_execute_agent tool_text_def Let_def)
qed

text \<open>
  Claim C9. The claim as stated fails: what the external tool raises is
  caught in \<^verbatim>\<open>claude_code_execute\<close> and returned as text, so such a
  submission is answered 200 with status \<open>completed\<close> and logged as
  completed. What holds: when an exception reaches the \<^verbatim>\<open>except\<close> branch of
  \<^verbatim>\<open>execute_task\<close> (the request body cannot be read, the submitted value is
  not a dict, or the write of the result file raises), the worker answers 500
  with status \<open>failed\<close> and its result log is unchanged; in every other
  case it answers 200 with status \<open>completed\<close> and appends exactly one
  entry, with status \<open>completed\<close>, whose result is the text of the tool
  run. That text is the standard output when the tool exits with code 0, and
  a failure message when the tool raises or exits with another code.
\<close>

theorem execute_task_result_log:
  "(exception_reaches_handler env request a w \<longrightarrow>
      status_code (fst (execute_task env request a w)) = 500
      \<and> py_get (json_body (fst (execute_task env request a w))) ''status'' JNull = Some (JStr ''failed'')
      \<and> task_results (fst (snd (execute_task env request a w))) = task_results a)
   \<and> (\<not> exception_reaches_handler env request a w \<longrightarrow>
      status_code (fst (execute_task env request a w)) = 200
      \<and> py_get (json_body (fst (execute_task env request a w))) ''status'' JNull = Some (JStr ''completed'')
      \<and> (\<exists>td. request = Returned td
            \<and> task_results (fst (snd (execute_task env request a w))) =
                task_results a @ [\<lparr>r_task = td, r_result = tool_text env a td w, r_status = ''completed''\<rparr>]))
   \<and> (fst (run_tool env (agent_workspace a) p w) = ToolRaised e \<longrightarrow>
        fst (claude_code_execute env a p w) = ''Failed to execute task: '' @ e)
   \<and> (fst (run_tool env (agent_workspace a) p w) = ToolExited rc out err \<and> rc \<noteq> 0 \<longrightarrow>
        fst (claude_code_execute env a p w) = ''Task execution failed: '' @ err)
   \<and> (fst (run_tool env (agent_workspace a) p w) = ToolExited 0 out err \<longrightarrow>
        fst (claude_code_execute env a p w) = out)"
proof -
  have failed: "status_code (fst (task_failed x b v)) = 500
      \<and> py_get (json_body (fst (task_failed x b v))) ''status'' JNull = Some (JStr ''failed'')
      \<and> task_results (fst (snd (task_failed x b v))) = task_results b" for x b and v :: 'a
    by (simp add: task_failed_def)
  have A: "status_code (fst (execute_task env request a w)) = 500
      \<and> py_get (json_body (fst (execute_task env request a w))) ''status'' JNull = Some (JStr ''failed'')
      \<and> task_results (fst (snd (execute_task env request a w))) = task_results a"
    if r: "exception_reaches_handler env request a w"
  proof (cases request)
    case (Raised x)
    then have "execute_task env request a w = task_failed x a w"
      by (simp add: execute_task_def)
    then show ?thesis using failed [of x a w] by simp
  next
    case (Returned td)
    show ?thesis
    proof (cases "is_dict td")
      case False
      then have "execute_task env request a w = task_failed (attribute_error td) a w"
        using Returned by (simp add: execute_task_non_dict)
      then show ?thesis using failed [of "attribute_error td" a w] by simp
    next
      case True
      then obtain kvs where td: "td = JDict kvs" using is_dict_ex by blast
      have "write_raises env a (JDict kvs) w"
        using r Returned True td by (simp add: exception_reaches_handler_def)
      from execute_task_write_raises [OF this] obtain x w' where
        "execute_task env request a w
           = task_failed x (a\<lparr>current_task := JDict kvs, sa_status := ''working''\<rparr>) w'"
        unfolding Returned td by blast
      then show ?thesis
        using failed [of x "a\<lparr>current_task := JDict kvs, sa_status := ''working''\<rparr>" w'] by simp
    qed
  qed
  have B: "status_code (fst (execute_task env request a w)) = 200
      \<and> py_get (json_body (fst (execute_task env request a w))) ''status'' JNull = Some (JStr ''completed'')
      \<and> (\<exists>td. request = Returned td
            \<and> task_results (fst (snd (execute_task env request a w))) =
                task_results a @ [\<lparr>r_task = td, r_result = tool_text env a td w, r_status = ''completed''\<rparr>])"
    if r: "\<not> exception_reaches_handler env request a w"
  proof (cases request)
    case (Raised x)
    then show ?thesis using r by (simp add: exception_reaches_handler_def)
  next
    case (Returned td)
    then have d: "is_dict td" and nw: "\<not> write_raises env a td w"
      using r by (simp_all add: exception_reaches_handler_def)
    from d obtain kvs where td: "td = JDict kvs" using is_dict_ex by blast
    from execute_task_written [OF nw [unfolded td]] obtain w' where
      ex: "execute_task env request a w
           = (\<lparr>status_code = 200,
                json_body = JDict [(''status'', JStr ''completed''),
                                   (''result'', JStr (tool_text env a (JDict kvs) w))]\<rparr>,
              a\<lparr>current_task := JNull, sa_status := ''idle'',
                task_results := task_results a @
                  [\<lparr>r_task = JDict kvs, r_result = tool_text env a (JDict kvs) w,
                     r_status = ''completed''\<rparr>]\<rparr>,
              w')"
      unfolding Returned td by blast
    show ?thesis unfolding ex using Returned td by simp
  qed
  have C: "fst (claude_code_execute env a p w) = ''Failed to execute task: '' @ e"
    if "fst (run_tool env (agent_workspace a) p w) = ToolRaised e"
    using that by (cases "run_tool env (agent_workspace a) p w") (simp add: claude_code_execute_def)
  have D: "fst (claude_code_execute env a p w) = ''Task execution failed: '' @ err"
    if "fst (run_tool env (agent_workspace a) p w) = ToolExited rc out err \<and> rc \<noteq> 0"
    using that by (cases "run_tool env (agent_workspace a) p w") (simp add: claude_code_execute_def)
  have E: "fst (claude_code_execute env a p w) = out"
    if "fst (run_tool env (agent_workspace a) p w) = ToolExited 0 out err"
    using that by (cases "run_tool env (agent_workspace a) p w") (simp add: claude_code_execute_def)
  show ?thesis
    using A B C D E by blast
qed

theorem execute_task_result_log_witness:
  "exception_reaches_handler full_disk_env (Returned sample_task) idle_agent 0
   \<and> status_code (fst (execute_task full_disk_env (Returned sample_task) idle_agent 0)) = 500
   \<and> task_results (fst (snd (execute_task full_disk_env (Returned sample_task) idle_agent 0)))
       = task_results idle_agent
   \<and> \<not> exception_reaches_handler working_env (Returned sample_task) idle_agent 0
   \<and> status_code (fst (execute_task working_env (Returned sample_task) idle_agent 0)) = 200
   \<and> fst (run_tool missing_tool_env (agent_workspace idle_agent) ''p'' 0)
       = ToolRaised ''[Errno 2] No such file or directory: claude-code''
   \<and> fst (claude_code_execute missing_tool_env idle_agent ''p'' 0)
       = ''Failed to execute task: '' @ ''[Errno 2] No such file or directory: claude-code''
   \<and> fst (run_tool failing_tool_env (agent_workspace idle_agent) ''p'' 0)
       = ToolExited 1 [] ''unknown option --prompt''
   \<and> fst (claude_code_execute failing_tool_env idle_agent ''p'' 0)
       = ''Task execution failed: '' @ ''unknown option --prompt''
   \<and> fst (run_tool working_env (agent_workspace idle_agent) ''p'' 0) = ToolExited 0 ''done'' []
   \<and> fst (claude_code_execute working_env idle_agent ''p'' 0) = ''done''"
proof -
  have run: "exception_reaches_handler full_disk_env (Returned sample_task) idle_agent 0
     \<and> \<not> exception_reaches_handler working_env (Returned sample_task) idle_agent 0
     \<and> fst (run_tool missing_tool_env (agent_workspace idle_agent) ''p'' 0)
         = ToolRaised ''[Errno 2] No such file or directory: claude-code''
     \<and> fst (run_tool failing_tool_env (agent_workspace idle_agent) ''p'' 0)
         = ToolExited 1 [] ''unknown option --prompt''
     \<and> (1 :: int) \<noteq> 0
     \<and> fst (run_tool working_env (agent_workspace idle_agent) ''p'' 0) = ToolExited 0 ''done'' []"
    by code_simp
  from run
    execute_task_result_log [of full_disk_env "Returned sample_task" idle_agent 0]
    execute_task_result_log [of working_env "Returned sample_task" idle_agent 0 "''p''" e rc "''done''" "[]"]
    execute_task_result_log [of missing_tool_env "Returned sample_task" idle_agent 0 "''p''"
      "''[Errno 2] No such file or directory: claude-code''"]
    execute_task_result_log [of failing_tool_env "Returned sample_task" idle_agent 0 "''p''" e 1 "[]"
      "''unknown option --prompt''"]
  show ?thesis by blast
qed

text \<open>
  Claim C9, counterexample: the tool is not installed, so its run raises
  inside the worker; the submission is answered 200 with status
  \<open>completed\<close> and an entry with status \<open>completed\<close> holding the failure
  message is appended to the result log.
\<close>

theorem result_log_holds_tool_failure:
  "fst (run_tool missing_tool_env (agent_workspace idle_agent)
          (role_prompt missing_tool_env (sa_role idle_agent) sample_task) 0)
     = ToolRaised ''[Errno 2] No such file or directory: claude-code''
   \<and> status_code (fst (execute_task missing_tool_env (Returned sample_task) idle_agent 0)) = 200
   \<and> json_body (fst (execute_task missing_tool_env (Returned sample_task) idle_agent 0))
       = JDict [(''status'', JStr ''completed''),
                (''result'', JStr ''Failed to execute task: [Errno 2] No such file or directory: claude-code'')]
   \<and> map r_status (task_results (fst (snd (execute_task missing_tool_env (Returned sample_task) idle_agent 0))))
       = [''completed'', ''completed'']
   \<and> map r_result (task_results (fst (snd (execute_task missing_tool_env (Returned sample_task) idle_agent 0))))
       = [''done'', ''Failed to execute task: [Errno 2] No such file or directory: claude-code'']"
  by code_simp

section \<open>Synchronous completion\<close>

text \<open>
  Claim C1. A single task whose worker answers the submission with 200,
  status \<open>completed\<close> and result \<open>ok\<close>: when \<open>assign_tasks\<close> returns, the
  result field is \<open>ok\<close> but the tracked status is \<open>Assigned\<close>, because the
  assignment after the call of \<open>send_task_to_agent\<close> overwrites the
  \<open>Completed\<close> that the call has set.
\<close>

theorem assign_tasks_overwrites_completed:
  "map_option (\<lambda>oc. (tracked_status (snd (state_of oc)) ''task_1'',
                      result (tasks (snd (state_of oc)) ! 0)))
     (assign_tasks 2 completing_post one_worker
        (0, \<lparr>tasks = [mk_task ''task_1'' ''T'' 5 []], task_status = Map.empty, calls = []\<rparr>))
   = Some (Assigned, JStr ''ok'')"
  by code_simp

section \<open>Frame of the completion poller\<close>

lemma status_entry_cong: "task_status m' k = task_status m k \<Longrightarrow> status_entry m' k = status_entry m k"
  by (simp add: status_entry_def)

lemma poll_task_cases:
  "poll_task get info i (w, m) = (w', m') \<Longrightarrow>
     m' = m \<or> (\<exists>e res. task_status m (task_id (tasks m ! i)) = Some e
                 \<and> m' = set_result (m\<lparr>task_status := (task_status m)(task_id (tasks m ! i) \<mapsto>
                                          e\<lparr>st_status := Completed\<rparr>)\<rparr>) i res)"
  unfolding poll_task_def Let_def set_status_def
  by (auto split: option.splits prod.splits reply.splits if_splits)

lemma update_step_cases:
  "update_step get agents i (w, m) = (w', m') \<Longrightarrow>
     m' = m \<or> (status_entry m (task_id (tasks m ! i)) = Some InProgress
               \<and> (\<exists>e res. task_status m (task_id (tasks m ! i)) = Some e
                     \<and> m' = set_result (m\<lparr>task_status := (task_status m)(task_id (tasks m ! i) \<mapsto>
                                          e\<lparr>st_status := Completed\<rparr>)\<rparr>) i res))"
  unfolding update_step_def Let_def
  by (auto split: option.splits if_splits dest!: poll_task_cases)

lemma poll_frame_refl: "poll_frame m m"
  by (simp add: poll_frame_def)

lemma task_id_result_update: "t'\<lparr>result := r\<rparr> = t \<Longrightarrow> task_id t' = task_id t"
  by (cases t', cases t) auto

lemma result_update_trans:
  "t'\<lparr>result := result t\<rparr> = t \<Longrightarrow> t''\<lparr>result := result t'\<rparr> = t' \<Longrightarrow> t''\<lparr>result := result t\<rparr> = (t::task)"
  by (cases t, cases t', cases t'') auto

lemma poll_frame_trans:
  assumes a: "poll_frame m m'" and b: "poll_frame m' m''"
  shows "poll_frame m m''"
proof -
  have len: "length (tasks m') = length (tasks m)" "length (tasks m'') = length (tasks m')"
    and cl: "calls m'' = calls m"
    using a b by (simp_all add: poll_frame_def)
  have st_a: "task_status m' k = task_status m k
            \<or> (status_entry m k = Some InProgress \<and> status_entry m' k = Some Completed
                \<and> task_status m' k = map_option (\<lambda>e. e\<lparr>st_status := Completed\<rparr>) (task_status m k))" for k
    using a by (simp add: poll_frame_def)
  have st_b: "task_status m'' k = task_status m' k
            \<or> (status_entry m' k = Some InProgress \<and> status_entry m'' k = Some Completed
                \<and> task_status m'' k = map_option (\<lambda>e. e\<lparr>st_status := Completed\<rparr>) (task_status m' k))" for k
    using b by (simp add: poll_frame_def)
  have st: "task_status m'' k = task_status m k
            \<or> (status_entry m k = Some InProgress \<and> status_entry m'' k = Some Completed
                \<and> task_status m'' k = map_option (\<lambda>e. e\<lparr>st_status := Completed\<rparr>) (task_status m k))" for k
    using st_a [of k] st_b [of k] status_entry_cong [of m' k m] status_entry_cong [of m'' k m']
    by auto
  have tk: "(tasks m'' ! j)\<lparr>result := result (tasks m ! j)\<rparr> = tasks m ! j
           \<and> (tasks m'' ! j \<noteq> tasks m ! j \<longrightarrow>
                status_entry m (task_id (tasks m ! j)) = Some InProgress
                \<and> status_entry m'' (task_id (tasks m ! j)) = Some Completed)"
    if j: "j < length (tasks m)" for j
  proof -
    let ?t = "tasks m ! j" and ?t' = "tasks m' ! j" and ?t'' = "tasks m'' ! j"
    have r1: "?t'\<lparr>result := result ?t\<rparr> = ?t"
      and c1: "?t' \<noteq> ?t \<Longrightarrow>
                status_entry m (task_id ?t) = Some InProgress
                \<and> status_entry m' (task_id ?t) = Some Completed"
      using a j by (simp_all add: poll_frame_def)
    have id1: "task_id ?t' = task_id ?t"
      using r1 by (rule task_id_result_update)
    have "j < length (tasks m')"
      using j len by simp
    with b have b2: "?t''\<lparr>result := result ?t'\<rparr> = ?t'
        \<and> (?t'' \<noteq> ?t' \<longrightarrow> status_entry m' (task_id ?t') = Some InProgress
                \<and> status_entry m'' (task_id ?t') = Some Completed)"
      unfolding poll_frame_def by blast
    then have r2: "?t''\<lparr>result := result ?t'\<rparr> = ?t'"
      and c2: "?t'' \<noteq> ?t' \<Longrightarrow>
                status_entry m' (task_id ?t) = Some InProgress
                \<and> status_entry m'' (task_id ?t) = Some Completed"
      using id1 by simp_all
    have r: "?t''\<lparr>result := result ?t\<rparr> = ?t"
      using r1 r2 by (rule result_update_trans)
    have c: "status_entry m (task_id ?t) = Some InProgress
                \<and> status_entry m'' (task_id ?t) = Some Completed"
      if ne: "?t'' \<noteq> ?t"
    proof (cases "?t' = ?t")
      case True
      with ne have "?t'' \<noteq> ?t'" by simp
      from c2 [OF this] st_a [of "task_id ?t"] status_entry_cong [of m' "task_id ?t" m]
      show ?thesis by auto
    next
      case False
      from c1 [OF this] st_b [of "task_id ?t"] status_entry_cong [of m'' "task_id ?t" m']
      show ?thesis by auto
    qed
    from r c show ?thesis by blast
  qed
  show ?thesis
    unfolding poll_frame_def using len cl st tk by simp
qed

lemma poll_frame_step:
  assumes "update_step get agents i (w, m) = (w', m')" and "i < length (tasks m)"
  shows "poll_frame m m'"
  using update_step_cases [OF assms(1)] assms(2)
  by (auto simp: poll_frame_def set_result_def nth_list_update status_entry_def split: if_splits)

lemma update_fold_frame:
  "set is \<subseteq> {..<length (tasks m)} \<Longrightarrow> fold (update_step get agents) is (w, m) = (w', m')
     \<Longrightarrow> poll_frame m m'"
proof (induction "is" arbitrary: w m)
  case Nil
  then show ?case by (simp add: poll_frame_refl)
next
  case (Cons i "is")
  obtain w1 m1 where s1: "update_step get agents i (w, m) = (w1, m1)"
    by (cases "update_step get agents i (w, m)")
  from Cons.prems have i: "i < length (tasks m)" by simp
  have f1: "poll_frame m m1"
    using s1 i by (rule poll_frame_step)
  then have "length (tasks m1) = length (tasks m)"
    by (simp add: poll_frame_def)
  with Cons.prems have "set is \<subseteq> {..<length (tasks m1)}" by simp
  moreover from Cons.prems s1 have "fold (update_step get agents) is (w1, m1) = (w', m')"
    by simp
  ultimately have "poll_frame m1 m'" by (rule Cons.IH)
  with f1 show ?case by (rule poll_frame_trans)
qed

text \<open>
  Claim C10. One pass of \<open>update_task_status\<close> keeps the task list's length
  and every field of every task other than \<open>result\<close>; a task whose tracked
  status is not \<open>InProgress\<close> is unchanged, and so is its status entry; a
  task that does change has tracked status \<open>Completed\<close> afterwards; and the
  only change to a status entry is from \<open>InProgress\<close> to \<open>Completed\<close>.
\<close>

theorem update_task_status_frame:
  "update_task_status get agents (w, m) = (w', m') \<Longrightarrow>
     length (tasks m') = length (tasks m)
     \<and> (\<forall>j<length (tasks m).
           (tasks m' ! j)\<lparr>result := result (tasks m ! j)\<rparr> = tasks m ! j
           \<and> (tracked_status m (task_id (tasks m ! j)) \<noteq> InProgress \<longrightarrow> tasks m' ! j = tasks m ! j)
           \<and> (tasks m' ! j \<noteq> tasks m ! j \<longrightarrow> tracked_status m' (task_id (tasks m ! j)) = Completed))
     \<and> (\<forall>k. tracked_status m k \<noteq> InProgress \<longrightarrow> task_status m' k = task_status m k)
     \<and> (\<forall>k. task_status m' k = task_status m k
            \<or> (tracked_status m k = InProgress \<and> tracked_status m' k = Completed
                \<and> task_status m' k = map_option (\<lambda>e. e\<lparr>st_status := Completed\<rparr>) (task_status m k)))"
proof -
  assume u: "update_task_status get agents (w, m) = (w', m')"
  have "poll_frame m m'"
    using u unfolding update_task_status_def
    by (intro update_fold_frame [where w = w and w' = w' and get = get and agents = agents]) auto
  then show ?thesis
    unfolding poll_frame_def tracked_status_def
    by (auto split: option.splits)
qed


theorem update_task_status_frame_witness:
  "length (tasks (snd (update_task_status polling_get one_worker (0, polled_manager)))) = 2
   \<and> tracked_status polled_manager ''task_2'' = Assigned
   \<and> tasks (snd (update_task_status polling_get one_worker (0, polled_manager))) ! 1
       = tasks polled_manager ! 1
   \<and> tasks (snd (update_task_status polling_get one_worker (0, polled_manager))) ! 0
       \<noteq> tasks polled_manager ! 0
   \<and> tracked_status (snd (update_task_status polling_get one_worker (0, polled_manager))) ''task_1''
       = Completed"
proof -
  have run: "length (tasks (snd (update_task_status polling_get one_worker (0, polled_manager)))) = 2
   \<and> tracked_status polled_manager ''task_2'' = Assigned
   \<and> tasks (snd (update_task_status polling_get one_worker (0, polled_manager))) ! 1
       = tasks polled_manager ! 1
   \<and> tasks (snd (update_task_status polling_get one_worker (0, polled_manager))) ! 0
       \<noteq> tasks polled_manager ! 0
   \<and> tracked_status (snd (update_task_status polling_get one_worker (0, polled_manager))) ''task_1''
       = Completed"
    by code_simp
  from update_task_status_frame [OF surjective_pairing, of polling_get one_worker 0 polled_manager]
    run
  show ?thesis by blast
qed

section \<open>The scheduler returns a topological order\<close>

lemma indeg_Nil [simp]: "indeg [] P t = 0"
  by (simp add: indeg_def)

lemma indeg_Cons [simp]:
  "indeg ((d, ns) # g) P t = (if d \<in> P then 0 else count_list ns t) + indeg g P t"
  by (simp add: indeg_def)

















lemma those_map_Some:
  "\<forall>x\<in>set xs. f x \<noteq> None \<Longrightarrow> those (map f xs) = Some (map (\<lambda>x. the (f x)) xs)"
  by (induction xs) auto

lemma sort_key_decorated:
  "sort_key fst (map (\<lambda>y. (f y, y)) xs) = map (\<lambda>y. (f y, y)) (sort_key f xs)"
proof (induction xs)
  case Nil
  then show ?case by simp
next
  case (Cons x xs)
  have "insort_key fst (f x, x) (map (\<lambda>y. (f y, y)) ys) = map (\<lambda>y. (f y, y)) (insort_key f x ys)" for ys
    by (induction ys) auto
  with Cons show ?case by simp
qed

lemma sort_queue_sort_key:
  assumes "\<forall>x\<in>set q. map_of tm x \<noteq> None"
  shows "sort_queue tm ts q = Some (sort_key (queue_key tm ts) q)"
proof -
  let ?f = "\<lambda>x. map_option (\<lambda>i. priority (ts ! i)) (map_of tm x)"
  have k: "\<forall>x\<in>set q. the (?f x) = queue_key tm ts x"
    using assms by (auto simp: queue_key_def)
  have "those (map ?f q) = Some (map (\<lambda>x. the (?f x)) q)"
    using assms by (intro those_map_Some) auto
  also have "map (\<lambda>x. the (?f x)) q = map (queue_key tm ts) q"
    using k by (intro map_cong) auto
  finally have t: "those (map ?f q) = Some (map (queue_key tm ts) q)" .
  have "zip (map (queue_key tm ts) q) q = map (\<lambda>y. (queue_key tm ts y, y)) q"
    by (induction q) auto
  then have "map snd (sort_key fst (zip (map (queue_key tm ts) q) q)) = sort_key (queue_key tm ts) q"
    by (simp add: sort_key_decorated comp_def)
  with t show ?thesis
    by (simp add: sort_queue_def)
qed










section \<open>Resolution of a title carried by several tasks\<close>

text \<open>
  Claim C6. With two tasks titled \<open>A\<close>, the lookup of \<open>can_assign_task\<close>
  resolves \<open>A\<close> to the first of them, but the scheduler's title-to-task
  map resolves \<open>A\<close> to the second, and only the second is scheduled. With
  a third task \<open>B\<close> that depends on \<open>A\<close> and a worker that completes every
  submission, one run of \<open>assign_tasks\<close> leaves the first \<open>A\<close> untracked
  and never sent, so \<open>B\<close>, whose dependency is looked up in that first
  \<open>A\<close>, stays \<open>NotStarted\<close> and is never sent either.
\<close>

theorem task_map_first_match_counterexample:
  "map_option (\<lambda>i. two_same_title ! i) (map_of (build_task_map two_same_title) ''A'')
      \<noteq> find (\<lambda>t. title t = ''A'') two_same_title
   \<and> find (\<lambda>t. title t = ''A'') two_same_title = Some (two_same_title ! 0)
   \<and> map_of (build_task_map two_same_title) ''A'' = Some 1
   \<and> sort_tasks_by_dependencies two_same_title = Some [1]
   \<and> map_option (\<lambda>oc. (map (status_entry (snd (state_of oc))) [''task_1'', ''task_2'', ''task_3''],
                        calls (snd (state_of oc))))
        (assign_tasks 4 completing_post one_worker
           (0, \<lparr>tasks = two_same_title @ [mk_task ''task_3'' ''B'' 1 [''A'']],
                task_status = Map.empty, calls = []\<rparr>))
      = Some ([None, Some Assigned, Some NotStarted], [1])"
  by code_simp

section \<open>Order of emission from the ready set\<close>

lemma before_Cons: "before a b xs \<Longrightarrow> before a b (x # xs)"
proof -
  assume "before a b xs"
  then obtain us rest where "xs = us @ a # rest" "b \<in> set rest"
    unfolding before_def by blast
  then have "x # xs = (x # us) @ a # rest \<and> b \<in> set rest" by simp
  then show ?thesis unfolding before_def by blast
qed

lemma before_append: "before a b xs \<Longrightarrow> before a b (xs @ ys)"
proof -
  assume "before a b xs"
  then obtain us rest where "xs = us @ a # rest" "b \<in> set rest"
    unfolding before_def by blast
  then have "xs @ ys = us @ a # (rest @ ys) \<and> b \<in> set (rest @ ys)" by simp
  then show ?thesis unfolding before_def by blast
qed

lemma before_tl: "before a b (x # xs) \<Longrightarrow> x \<noteq> a \<Longrightarrow> before a b xs"
proof -
  assume "before a b (x # xs)" and ne: "x \<noteq> a"
  then obtain us rest where ur: "x # xs = us @ a # rest" "b \<in> set rest"
    unfolding before_def by blast
  with ne obtain us' where "us = x # us'" by (cases us) auto
  with ur have "xs = us' @ a # rest \<and> b \<in> set rest" by simp
  then show ?thesis unfolding before_def by blast
qed

lemma before_hd: "before a b (a # xs) \<Longrightarrow> b \<in> set xs"
proof -
  assume "before a b (a # xs)"
  then obtain us rest where ur: "a # xs = us @ a # rest" "b \<in> set rest"
    unfolding before_def by blast
  show ?thesis
  proof (cases us)
    case Nil
    with ur show ?thesis by simp
  next
    case (Cons u us')
    with ur have "xs = us' @ a # rest" by simp
    with ur(2) show ?thesis by simp
  qed
qed

lemma before_mem: "before a b xs \<Longrightarrow> a \<in> set xs \<and> b \<in> set xs"
  unfolding before_def by auto

lemma before_filter: "before a b xs \<Longrightarrow> P a \<Longrightarrow> P b \<Longrightarrow> before a b (filter P xs)"
proof -
  assume "before a b xs" and P: "P a" "P b"
  then obtain us rest where "xs = us @ a # rest" "b \<in> set rest"
    unfolding before_def by blast
  with P have "filter P xs = filter P us @ a # filter P rest \<and> b \<in> set (filter P rest)" by simp
  then show ?thesis unfolding before_def by blast
qed

lemma before_filterD: "before a b (filter P xs) \<Longrightarrow> before a b xs"
proof (induction xs)
  case Nil
  then show ?case by (simp add: before_def)
next
  case (Cons x xs)
  show ?case
  proof (cases "P x")
    case False
    with Cons show ?thesis by (simp add: before_Cons)
  next
    case True
    show ?thesis
    proof (cases "x = a")
      case xa: True
      show ?thesis
      proof (cases "b \<in> set xs")
        case True
        with xa have "x # xs = [] @ a # xs \<and> b \<in> set xs" by simp
        then show ?thesis unfolding before_def by blast
      next
        case False
        with Cons.prems True xa have "before a b (a # filter P xs)" by simp
        then have "b \<in> set (filter P xs)" by (rule before_hd)
        with False show ?thesis by simp
      qed
    next
      case False
      from Cons.prems True have "before a b (x # filter P xs)" by simp
      then have "before a b (filter P xs)" using False by (rule before_tl)
      then have "before a b xs" by (rule Cons.IH)
      then show ?thesis by (rule before_Cons)
    qed
  qed
qed

lemma sort_key_before:
  fixes f :: "'a \<Rightarrow> int"
  assumes "a \<in> set xs" and "b \<in> set xs" and "a \<noteq> b"
    and "f a < f b \<or> (f a = f b \<and> before a b xs)"
  shows "before a b (sort_key f xs)"
proof (cases "f a < f b")
  case True
  from assms(1) have "a \<in> set (sort_key f xs)" by simp
  from split_list [OF this] obtain us rest where sp: "sort_key f xs = us @ a # rest"
    by blast
  have "sorted (map f (us @ a # rest))"
    using sp by (metis sorted_sort_key)
  then have "\<forall>u\<in>set us. f u \<le> f a"
    by (auto simp: sorted_append)
  with True have "b \<notin> set us" by auto
  moreover from assms(2) sp have "b \<in> set (us @ a # rest)" by (metis set_sort)
  ultimately have "b \<in> set rest" using assms(3) by auto
  with sp show ?thesis unfolding before_def by blast
next
  case False
  with assms(4) have eq: "f a = f b" and bf: "before a b xs" by auto
  from bf eq have "before a b (filter (\<lambda>y. f y = f a) xs)"
    by (intro before_filter) simp_all
  then have "before a b (filter (\<lambda>y. f y = f a) (sort_key f xs))"
    by (simp add: sort_key_stable)
  then show ?thesis by (rule before_filterD)
qed

lemma those_Some_all: "those xs = Some ys \<Longrightarrow> \<forall>x\<in>set xs. x \<noteq> None"
  by (induction xs arbitrary: ys) (auto split: option.splits)

lemma sort_queue_Some:
  assumes "sort_queue tm ts q = Some q'"
  shows "q' = sort_key (queue_key tm ts) q"
proof -
  from assms obtain ks where
    "those (map (\<lambda>x. map_option (\<lambda>i. priority (ts ! i)) (map_of tm x)) q) = Some ks"
    by (auto simp: sort_queue_def split: option.splits)
  from those_Some_all [OF this] have "\<forall>x\<in>set q. map_of tm x \<noteq> None" by auto
  from sort_queue_sort_key [OF this, of ts] assms show ?thesis by simp
qed

lemma relax_appends: "relax ns (d, q) = Some (d', q') \<Longrightarrow> \<exists>new. q' = q @ new"
proof (induction ns arbitrary: d q)
  case Nil
  then show ?case by simp
next
  case (Cons n ns)
  from Cons.prems obtain v where v: "map_of d n = Some v"
    by (auto split: option.splits)
  with Cons.prems have
    "relax ns (AList.update n (v - 1) d, if v - 1 = 0 then q @ [n] else q) = Some (d', q')"
    by simp
  from Cons.IH [OF this] show ?case by (auto split: if_splits)
qed

lemma kahn_loop_unfold:
  assumes "kahn_loop tm g ts d q S = Some out" and "q \<noteq> []"
  shows "\<exists>current queue' i ns d' new.
    sort_queue tm ts q = Some (current # queue')
    \<and> current # queue' = sort_key (queue_key tm ts) q
    \<and> map_of tm current = Some i \<and> map_of g current = Some ns
    \<and> relax ns (d, queue') = Some (d', queue' @ new)
    \<and> kahn_loop tm g ts d' (queue' @ new) (S @ [i]) = Some out"
proof -
  from assms obtain current queue' i ns d' q'' where
    sq: "sort_queue tm ts q = Some (current # queue')"
    and i: "map_of tm current = Some i" and ns: "map_of g current = Some ns"
    and rl: "relax ns (d, queue') = Some (d', q'')"
    and k: "kahn_loop tm g ts d' q'' (S @ [i]) = Some out"
    by (subst (asm) kahn_loop.simps) (auto split: option.splits list.splits)
  from relax_appends [OF rl] obtain new where n: "q'' = queue' @ new" by blast
  from sq sort_queue_Some [OF sq] i ns rl [unfolded n] k [unfolded n]
  show ?thesis by (intro exI conjI)
qed

lemma kahn_loop_Nil: "kahn_loop tm g ts d [] S = Some S"
  by (subst kahn_loop.simps) simp

lemma kahn_loop_extends:
  "kahn_loop tm g ts d q S = Some out \<Longrightarrow> \<exists>r. out = S @ r"
proof (induction tm g ts d q S rule: kahn_loop.induct)
  case (1 task_map graph ts in_degree queue sorted_tasks)
  show ?case
  proof (cases "queue = []")
    case True
    have e: "kahn_loop task_map graph ts in_degree [] sorted_tasks = Some sorted_tasks"
      by (rule kahn_loop_Nil)
    from "1.prems" have "out = sorted_tasks" unfolding True e by simp
    then have "out = sorted_tasks @ []" by simp
    then show ?thesis by (rule exI)
  next
    case False
    from kahn_loop_unfold [OF "1.prems" False] obtain current queue' i ns d' new where
      u: "sort_queue task_map ts queue = Some (current # queue')"
        "map_of task_map current = Some i" "map_of graph current = Some ns"
        "relax ns (in_degree, queue') = Some (d', queue' @ new)"
        "kahn_loop task_map graph ts d' (queue' @ new) (sorted_tasks @ [i]) = Some out"
      by blast
    have "\<exists>r. out = (sorted_tasks @ [i]) @ r"
      using False u(1) refl u(2,3,4) refl u(5) by (rule "1.IH")
    then obtain r where "out = (sorted_tasks @ [i]) @ r" by blast
    then have "out = sorted_tasks @ ([i] @ r)" by simp
    then show ?thesis by blast
  qed
qed

lemma kahn_loop_emits_queued:
  "kahn_loop tm g ts d q S = Some out \<Longrightarrow> b \<in> set q \<Longrightarrow> map_of tm b = Some ib \<Longrightarrow>
     \<exists>ys zs. out = S @ ys @ ib # zs"
proof (induction tm g ts d q S rule: kahn_loop.induct)
  case (1 task_map graph ts in_degree queue sorted_tasks)
  from "1.prems"(2) have ne: "queue \<noteq> []" by auto
  from kahn_loop_unfold [OF "1.prems"(1) ne] obtain current queue' i ns d' new where
    u: "sort_queue task_map ts queue = Some (current # queue')"
      "map_of task_map current = Some i" "map_of graph current = Some ns"
      "relax ns (in_degree, queue') = Some (d', queue' @ new)"
      "kahn_loop task_map graph ts d' (queue' @ new) (sorted_tasks @ [i]) = Some out"
    and sk: "current # queue' = sort_key (queue_key task_map ts) queue"
    by blast
  have bq: "b \<in> set (current # queue')"
    using "1.prems"(2) sk by (metis set_sort)
  show ?case
  proof (cases "current = b")
    case True
    with u(2) "1.prems"(3) have "i = ib" by simp
    from kahn_loop_extends [OF u(5)] obtain r where "out = (sorted_tasks @ [i]) @ r" by blast
    with \<open>i = ib\<close> have "out = sorted_tasks @ [] @ ib # r" by simp
    then show ?thesis by blast
  next
    case False
    with bq have bq': "b \<in> set (queue' @ new)" by auto
    have "\<exists>ys zs. out = (sorted_tasks @ [i]) @ ys @ ib # zs"
      using ne u(1) refl u(2,3,4) refl u(5) bq' "1.prems"(3) by (rule "1.IH")
    then obtain ys zs where "out = (sorted_tasks @ [i]) @ ys @ ib # zs" by blast
    then have "out = sorted_tasks @ (i # ys) @ ib # zs" by simp
    then show ?thesis by blast
  qed
qed

text \<open>
  Claim C5. Whenever two titles \<open>a\<close> and \<open>b\<close> are in the ready queue at the
  head of the loop, and either the task of \<open>a\<close> has the smaller priority,
  or the priorities are equal and \<open>a\<close> stands before \<open>b\<close> in the queue,
  then in the order the loop returns the task of \<open>a\<close> comes before the
  task of \<open>b\<close>.
\<close>

theorem kahn_loop_priority_order:
  "kahn_loop task_map graph ts in_degree queue sorted_tasks = Some out \<Longrightarrow>
   a \<in> set queue \<Longrightarrow> b \<in> set queue \<Longrightarrow> a \<noteq> b \<Longrightarrow>
   map_of task_map a = Some ia \<Longrightarrow> map_of task_map b = Some ib \<Longrightarrow>
   priority (ts ! ia) < priority (ts ! ib)
     \<or> (priority (ts ! ia) = priority (ts ! ib) \<and> before a b queue) \<Longrightarrow>
   \<exists>xs ys zs. out = sorted_tasks @ xs @ ia # ys @ ib # zs"
proof (induction task_map graph ts in_degree queue sorted_tasks rule: kahn_loop.induct)
  case (1 task_map graph ts in_degree queue sorted_tasks)
  from "1.prems"(2) have ne: "queue \<noteq> []" by auto
  from kahn_loop_unfold [OF "1.prems"(1) ne] obtain current queue' i ns d' new where
    u: "sort_queue task_map ts queue = Some (current # queue')"
      "map_of task_map current = Some i" "map_of graph current = Some ns"
      "relax ns (in_degree, queue') = Some (d', queue' @ new)"
      "kahn_loop task_map graph ts d' (queue' @ new) (sorted_tasks @ [i]) = Some out"
    and sk: "current # queue' = sort_key (queue_key task_map ts) queue"
    by blast
  have ka: "queue_key task_map ts a = priority (ts ! ia)"
    and kb: "queue_key task_map ts b = priority (ts ! ib)"
    using "1.prems"(5,6) by (simp_all add: queue_key_def)
  have "before a b (sort_key (queue_key task_map ts) queue)"
    using "1.prems"(2,3,4) "1.prems"(7) unfolding ka [symmetric] kb [symmetric]
    by (rule sort_key_before)
  with sk have bf: "before a b (current # queue')" by simp
  show ?case
  proof (cases "current = a")
    case True
    with u(2) "1.prems"(5) have "i = ia" by simp
    moreover from bf True have "b \<in> set queue'"
      by (auto dest: before_hd)
    then have "b \<in> set (queue' @ new)" by simp
    from kahn_loop_emits_queued [OF u(5) this "1.prems"(6)]
    obtain ys zs where "out = (sorted_tasks @ [i]) @ ys @ ib # zs" by blast
    ultimately have "out = sorted_tasks @ [] @ ia # ys @ ib # zs" by simp
    then show ?thesis by blast
  next
    case False
    with bf have "before a b queue'" by (rule before_tl)
    then have b2: "before a b (queue' @ new)" by (rule before_append)
    from before_mem [OF b2] have am: "a \<in> set (queue' @ new)" and bm: "b \<in> set (queue' @ new)"
      by simp_all
    have pr: "priority (ts ! ia) < priority (ts ! ib)
     \<or> (priority (ts ! ia) = priority (ts ! ib) \<and> before a b (queue' @ new))"
      using "1.prems"(7) b2 by blast
    have "\<exists>xs ys zs. out = (sorted_tasks @ [i]) @ xs @ ia # ys @ ib # zs"
      using ne u(1) refl u(2,3,4) refl u(5) am bm "1.prems"(4,5,6) pr by (rule "1.IH")
    then obtain xs ys zs where "out = (sorted_tasks @ [i]) @ xs @ ia # ys @ ib # zs" by blast
    then have "out = sorted_tasks @ (i # xs) @ ia # ys @ ib # zs" by simp
    then show ?thesis by blast
  qed
qed

theorem kahn_loop_priority_order_witness:
  "kahn_loop (build_task_map scenario_b) [(''X'', []), (''Y'', [])] scenario_b
      [(''X'', 0), (''Y'', 0)] [''X'', ''Y''] [] = Some [1, 0]
   \<and> map_of (build_task_map scenario_b) ''Y'' = Some 1
   \<and> map_of (build_task_map scenario_b) ''X'' = Some 0
   \<and> priority (scenario_b ! 1) < priority (scenario_b ! 0)
   \<and> sort_tasks_by_dependencies scenario_b = Some [1, 0]"
proof -
  have run: "kahn_loop (build_task_map scenario_b) [(''X'', []), (''Y'', [])] scenario_b
      [(''X'', 0), (''Y'', 0)] [''X'', ''Y''] [] = Some [1, 0]
   \<and> map_of (build_task_map scenario_b) ''Y'' = Some 1
   \<and> map_of (build_task_map scenario_b) ''X'' = Some 0
   \<and> priority (scenario_b ! 1) < priority (scenario_b ! 0)
   \<and> sort_tasks_by_dependencies scenario_b = Some [1, 0]"
    by code_simp
  from kahn_loop_priority_order
    [of "build_task_map scenario_b" "[(''X'', []), (''Y'', [])]" scenario_b
        "[(''X'', 0), (''Y'', 0)]" "[''X'', ''Y'']" "[]" "[1, 0]" "''Y''" "''X''" 1 0]
    run
  show ?thesis by blast
qed

section \<open>Dependencies read by the parser\<close>

lemma split_comma_no_comma: "CHR '','' \<notin> set s \<Longrightarrow> split_comma s = [s]"
  by (induction s) auto

lemma search_Some: "search m s = Some r \<Longrightarrow> \<exists>t. m t = Some r"
  by (induction s) (auto split: option.splits)

lemma set_strip: "set (strip s) \<subseteq> set s"
proof
  fix x assume "x \<in> set (strip s)"
  then have "x \<in> set (dropWhile is_space (rev (dropWhile is_space s)))"
    by (simp add: strip_def)
  then have "x \<in> set (rev (dropWhile is_space s))" by (rule set_dropWhileD)
  then have "x \<in> set (dropWhile is_space s)" by simp
  then show "x \<in> set s" by (rule set_dropWhileD)
qed

lemma deps_at_no_comma: "deps_at t = Some g \<Longrightarrow> CHR '','' \<notin> set g"
proof -
  assume a: "deps_at t = Some g"
  then obtain r where r: "literal ''Dependencies:'' t = Some r"
    by (auto simp: deps_at_def split: option.splits)
  let ?ws = "takeWhile is_space r"
  let ?g = "takeWhile (\<lambda>c. c \<noteq> CHR '','' \<and> c \<noteq> CHR '')'') (dropWhile is_space r)"
  from a r have "g = ?g \<or> (?ws \<noteq> [] \<and> g = [last ?ws])"
    by (auto simp: deps_at_def Let_def split: if_splits)
  then show ?thesis
  proof
    assume "g = ?g"
    then show ?thesis by (auto dest: set_takeWhileD)
  next
    assume w: "?ws \<noteq> [] \<and> g = [last ?ws]"
    then have "last ?ws \<in> set ?ws" by simp
    then have "is_space (last ?ws)" by (rule set_takeWhileD [THEN conjunct2])
    then have "last ?ws \<noteq> CHR '',''" by (auto simp: is_space_def)
    with w show ?thesis by simp
  qed
qed

text \<open>
  Claim C7. The group of the \<open>Dependencies\<close> pattern stops at the first
  comma, so the split on commas that follows never sees one: the parser
  returns at most one dependency for any metadata text, and for a line that
  lists \<open>build, test\<close> it returns \<open>build\<close> alone. Priority and agent
  default to 5 and \<open>developer\<close>.
\<close>

theorem parse_dependencies_first_only:
  "length (snd (snd (parse_metadata task_metadata))) \<le> 1
   \<and> map dependencies (parse_tasks_markdown
        ''- [ ] **deploy** - Deploy the service (Priority: 3, Agent: qa, Dependencies: build, test)'')
      = [[''build'']]
   \<and> map (\<lambda>t. (priority t, agent t, dependencies t)) (parse_tasks_markdown
        ''- [ ] **setup** - Setup the project (first)'')
      = [(5, ''developer'', [])]"
proof (intro conjI)
  show "length (snd (snd (parse_metadata task_metadata))) \<le> 1"
  proof (cases "search deps_at task_metadata")
    case None
    then show ?thesis by (simp add: parse_metadata_def)
  next
    case (Some g)
    from search_Some [OF this] deps_at_no_comma have "CHR '','' \<notin> set g" by blast
    with set_strip [of g] have "CHR '','' \<notin> set (strip g)" by blast
    then have "split_comma (strip g) = [strip g]" by (rule split_comma_no_comma)
    with Some show ?thesis by (simp add: parse_metadata_def Let_def)
  qed
  show "map dependencies (parse_tasks_markdown
        ''- [ ] **deploy** - Deploy the service (Priority: 3, Agent: qa, Dependencies: build, test)'')
      = [[''build'']]"
    by code_simp
  show "map (\<lambda>t. (priority t, agent t, dependencies t)) (parse_tasks_markdown
        ''- [ ] **setup** - Setup the project (first)'')
      = [(5, ''developer'', [])]"
    by code_simp
qed

end
